theory Spec2Isabelle
  imports Main "HOL-Library.Word"
begin

section \<open>mrf\_yzzy: swapping the Y and Z axis of a third-dimension MRF\<close>

text \<open>
  The program is one C++ function, \<open>main\<close> of \<open>mrf_yzzy.cpp\<close>, and its helper
  \<open>Usage\<close>. It is embedded here as HOL functions with the names of the source:
  the local variables of \<open>main\<close> that the chunk loops read are the record \<open>ctx\<close>,
  every \<open>for\<close> loop is a recursive function, and everything the program does to the
  outside (the lines it prints, the calls it makes to GDAL) is returned as a list of
  \<open>event\<close>s next to the state of the raster store and of the working buffer.

  Conventions.
  \<^item> A C++ \<open>int\<close> is a HOL \<open>int\<close>. Where the source computes a value that may leave
    the 32-bit range (\<open>atoi\<close>, the stride products, the increments of the three
    loop counters) the model checks the range and ends the run with the outcome
    \<open>UndefinedBehaviour\<close>, since signed overflow has no defined result in C++.
  \<^item> \<open>size_t\<close> is 64 bits wide: a value of it is an \<open>int\<close> taken modulo \<open>2 ^ 64\<close>,
    so that the conversion of a negative \<open>int\<close> wraps around.
  \<^item> A C \<open>double\<close> is its 64-bit pattern. The program copies doubles and never
    computes on them, except for the one scaling of the geotransform, which is kept
    symbolic.
  \<^item> A dataset handle is \<open>None\<close> for \<open>NULL\<close> and \<open>Some name\<close> for the dataset
    opened or created under that name.
\<close>

subsection \<open>Strings: the C and CPL helpers the source calls\<close>

text \<open>\<open>tolower\<close> on ASCII: a capital letter (codes 65 to 90) gets the bit of value 32.\<close>

definition lower :: "char \<Rightarrow> char" where
  "lower c =
     (if 65 \<le> (of_char c :: nat) \<and> (of_char c :: nat) \<le> 90
      then (case c of Char b0 b1 b2 b3 b4 b5 b6 b7 \<Rightarrow> Char b0 b1 b2 b3 b4 True b6 b7)
      else c)"

text \<open>\<open>EQUAL(a, b)\<close>: equality of C strings up to the case of ASCII letters.\<close>

definition EQUAL :: "string \<Rightarrow> string \<Rightarrow> bool" where
  "EQUAL a b = (map lower a = map lower b)"

text \<open>\<open>STARTS_WITH_CI(s, p)\<close>: \<open>p\<close> is a prefix of \<open>s\<close> up to case.\<close>

definition STARTS_WITH_CI :: "string \<Rightarrow> string \<Rightarrow> bool" where
  "STARTS_WITH_CI s p = (map lower (take (length p) s) = map lower p)"

definition isspace :: "char \<Rightarrow> bool" where
  "isspace c = (of_char c \<in> {32, 9, 10, 11, 12, 13 :: nat})"

definition digit_of :: "char \<Rightarrow> nat option" where
  "digit_of c =
     (if 48 \<le> (of_char c :: nat) \<and> (of_char c :: nat) \<le> 57 then Some (of_char c - 48) else None)"

primrec atoi_digits :: "nat \<Rightarrow> string \<Rightarrow> nat" where
  "atoi_digits acc [] = acc"
| "atoi_digits acc (c # cs) =
     (case digit_of c of None \<Rightarrow> acc | Some d \<Rightarrow> atoi_digits (acc * 10 + d) cs)"

text \<open>
  \<open>atoi\<close>: white space, an optional sign, decimal digits; 0 when there is no digit.
  The value is the mathematical one; \<open>main\<close> checks that it is an \<open>int\<close>.
\<close>

definition atoi :: "string \<Rightarrow> int" where
  "atoi s =
     (case dropWhile isspace s of
        [] \<Rightarrow> 0
      | c # cs \<Rightarrow>
          if c = CHR ''-'' then - int (atoi_digits 0 cs)
          else if c = CHR ''+'' then int (atoi_digits 0 cs)
          else int (atoi_digits 0 (c # cs)))"

definition INT_MAX :: int where
  "INT_MAX = 2147483647"

definition INT_MIN :: int where
  "INT_MIN = - 2147483648"

definition is_int :: "int \<Rightarrow> bool" where
  "is_int n = (INT_MIN \<le> n \<and> n \<le> INT_MAX)"

text \<open>The conversion \<open>%d\<close> of \<open>printf\<close>.\<close>

fun show_nat :: "nat \<Rightarrow> string" where
  "show_nat n =
     (if n < 10 then [''0123456789'' ! n]
      else show_nat (n div 10) @ [''0123456789'' ! (n mod 10)])"

declare show_nat.simps [simp del]

definition show_int :: "int \<Rightarrow> string" where
  "show_int n = (if n < 0 then CHR ''-'' # show_nat (nat (- n)) else show_nat (nat n))"

text \<open>
  \<open>CSLFetchNameValue(list, name)\<close>: the text after \<open>name=\<close> or \<open>name:\<close> in the
  first entry that starts so, up to case; \<open>None\<close> is the null pointer.
\<close>

primrec CSLFetchNameValue :: "string list \<Rightarrow> string \<Rightarrow> string option" where
  "CSLFetchNameValue [] name = None"
| "CSLFetchNameValue (s # ss) name =
     (if STARTS_WITH_CI s name \<and>
         (case drop (length name) s of [] \<Rightarrow> False | c # _ \<Rightarrow> c = CHR ''='' \<or> c = CHR '':'')
      then Some (drop (length name + 1) s)
      else CSLFetchNameValue ss name)"

text \<open>\<open>strstr(s, "=") + 1\<close>, for a string that holds an equals sign.\<close>

definition after_equals :: "string \<Rightarrow> string" where
  "after_equals s = tl (dropWhile (\<lambda>c. c \<noteq> CHR ''='') s)"

subsection \<open>The raster store\<close>

type_synonym byte = "8 word"
type_synonym dbl = "64 word"

datatype GDALDataType =
    GDT_Unknown | GDT_Byte | GDT_UInt16 | GDT_Int16 | GDT_UInt32 | GDT_Int32
  | GDT_Float32 | GDT_Float64 | GDT_CInt16 | GDT_CInt32 | GDT_CFloat32 | GDT_CFloat64

fun GDALGetDataTypeSizeBytes :: "GDALDataType \<Rightarrow> int" where
  "GDALGetDataTypeSizeBytes GDT_Unknown = 0"
| "GDALGetDataTypeSizeBytes GDT_Byte = 1"
| "GDALGetDataTypeSizeBytes GDT_UInt16 = 2"
| "GDALGetDataTypeSizeBytes GDT_Int16 = 2"
| "GDALGetDataTypeSizeBytes GDT_UInt32 = 4"
| "GDALGetDataTypeSizeBytes GDT_Int32 = 4"
| "GDALGetDataTypeSizeBytes GDT_Float32 = 4"
| "GDALGetDataTypeSizeBytes GDT_Float64 = 8"
| "GDALGetDataTypeSizeBytes GDT_CInt16 = 4"
| "GDALGetDataTypeSizeBytes GDT_CInt32 = 8"
| "GDALGetDataTypeSizeBytes GDT_CFloat32 = 8"
| "GDALGetDataTypeSizeBytes GDT_CFloat64 = 16"

text \<open>
  The six coefficients of a geotransform, and the one computation of the
  program on doubles, \<open>gt[5] *= double(ysz) / double(zsz)\<close>, kept symbolic.
\<close>

datatype geotransform = Coefficients "dbl list" | ScaleY geotransform int int

text \<open>
  One dataset of the store: its shape, what the program can set on it, and its pixels
  by (band, line, column), bands counted from 1. A pixel is the bytes of one element;
  \<open>None\<close> is a pixel that was never written.
\<close>

record dataset =
  ds_xsize :: int
  ds_ysize :: int
  ds_count :: int
  ds_type :: GDALDataType
  ds_projection :: string
  ds_geotransform :: geotransform
  ds_nodata :: "int \<Rightarrow> dbl option"
  ds_stats :: "int \<Rightarrow> (dbl \<times> dbl \<times> dbl \<times> dbl) option"
  ds_pixels :: "int \<times> int \<times> int \<Rightarrow> byte list option"

text \<open>
  What the driver answers about a dataset and the program only reads: the short name
  of the driver, the metadata of the domain \<open>IMAGE_STRUCTURE\<close>, and the block
  size of band 1.
\<close>

record header =
  hd_driver :: string
  hd_image_structure :: "string list"
  hd_blockx :: int
  hd_blocky :: int

text \<open>
  The world the program runs in: the drivers registered, the datasets of the store by
  name (a slice of a third-dimension MRF is addressed by the name of the file followed
  by \<open>:MRF:Z\<close> and its index), the answers of the driver by name, which names
  can be created, which allocations succeed, and the bytes of the working buffer by
  offset.
\<close>

record world =
  mrf_driver :: bool
  files :: "string \<Rightarrow> dataset option"
  headers :: "string \<Rightarrow> header"
  creatable :: "string \<Rightarrow> bool"
  malloc_ok :: "int \<Rightarrow> bool"
  buffer :: "int \<Rightarrow> byte"

type_synonym handle = "string option"
type_synonym bandh = "(string \<times> int) option"

datatype GDALRWFlag = GF_Read | GF_Write

text \<open>The arguments of one call of \<open>GDALDatasetRasterIO\<close>.\<close>

record rasterio =
  io_h :: handle
  io_rw :: GDALRWFlag
  io_xoff :: int
  io_yoff :: int
  io_xsize :: int
  io_ysize :: int
  io_data :: int
  io_bufxsize :: int
  io_bufysize :: int
  io_type :: GDALDataType
  io_bands :: int
  io_pixelspace :: int
  io_linespace :: int
  io_bandspace :: int

text \<open>What the program does to the outside, in the order it does it.\<close>

datatype event =
    Cerr string
  | CPLError string
  | PrintOption string
  | PrintBufferSize int
  | PrintProcessing int int int
  | Open string handle
  | Create string int int int GDALDataType "string list" handle
  | SetNoData bandh dbl
  | SetStatistics bandh dbl dbl dbl dbl
  | SetProjection handle string
  | SetGeoTransform handle geotransform
  | RasterIO rasterio
  | Close handle

definition GDALOpen :: "world \<Rightarrow> string \<Rightarrow> handle" where
  "GDALOpen w name = (case files w name of None \<Rightarrow> None | Some d \<Rightarrow> Some name)"

text \<open>
  Modelled from the spec: \<open>createWithOptions(name, width, depth, band_count, dtype,
  options) -> handle\<close> of the Raster Store, which is GDAL's MRF driver and not part of
  the repository. A dataset of the given shape appears under the name; the tiles a
  slice already holds stay when the slice is created again (the engine creates every
  destination slice once per Z chunk). The call fails with the null handle where the
  name cannot be created or a size is not positive. What the driver answers about
  the new dataset is left to \<open>headers\<close>: the program never asks.
\<close>

definition GDALCreate ::
  "world \<Rightarrow> string \<Rightarrow> int \<Rightarrow> int \<Rightarrow> int \<Rightarrow> GDALDataType \<Rightarrow> string list \<Rightarrow> handle \<times> world" where
  "GDALCreate w name nx ny nbands t options =
     (if creatable w name \<and> 1 \<le> nx \<and> 1 \<le> ny then
        (Some name,
         w\<lparr>files := (files w)(name \<mapsto>
            \<lparr>ds_xsize = nx, ds_ysize = ny, ds_count = nbands, ds_type = t,
             ds_projection = [], ds_geotransform = Coefficients [],
             ds_nodata = (\<lambda>b. None), ds_stats = (\<lambda>b. None),
             ds_pixels = (case files w name of
                            None \<Rightarrow> (\<lambda>p. None) | Some old \<Rightarrow> ds_pixels old)\<rparr>)\<rparr>)
      else (None, w))"

definition GDALGetRasterBand :: "world \<Rightarrow> handle \<Rightarrow> int \<Rightarrow> bandh" where
  "GDALGetRasterBand w h i =
     (case h of
        None \<Rightarrow> None
      | Some name \<Rightarrow>
          (case files w name of
             None \<Rightarrow> None
           | Some d \<Rightarrow> if 1 \<le> i \<and> i \<le> ds_count d then Some (name, i) else None))"

definition update_dataset :: "string \<Rightarrow> (dataset \<Rightarrow> dataset) \<Rightarrow> world \<Rightarrow> world" where
  "update_dataset name f w =
     (case files w name of
        None \<Rightarrow> w
      | Some d \<Rightarrow> w\<lparr>files := (files w)(name \<mapsto> f d)\<rparr>)"

definition GDALSetRasterNoDataValue :: "bandh \<Rightarrow> dbl \<Rightarrow> world \<Rightarrow> world" where
  "GDALSetRasterNoDataValue b v w =
     (case b of
        None \<Rightarrow> w
      | Some (name, i) \<Rightarrow>
          update_dataset name (\<lambda>d. d\<lparr>ds_nodata := (ds_nodata d)(i \<mapsto> v)\<rparr>) w)"

definition GDALSetRasterStatistics ::
  "bandh \<Rightarrow> dbl \<times> dbl \<times> dbl \<times> dbl \<Rightarrow> world \<Rightarrow> world" where
  "GDALSetRasterStatistics b s w =
     (case b of
        None \<Rightarrow> w
      | Some (name, i) \<Rightarrow>
          update_dataset name (\<lambda>d. d\<lparr>ds_stats := (ds_stats d)(i \<mapsto> s)\<rparr>) w)"

definition GDALSetProjection :: "handle \<Rightarrow> string \<Rightarrow> world \<Rightarrow> world" where
  "GDALSetProjection h p w =
     (case h of None \<Rightarrow> w | Some name \<Rightarrow> update_dataset name (\<lambda>d. d\<lparr>ds_projection := p\<rparr>) w)"

definition GDALSetGeoTransform :: "handle \<Rightarrow> geotransform \<Rightarrow> world \<Rightarrow> world" where
  "GDALSetGeoTransform h g w =
     (case h of None \<Rightarrow> w | Some name \<Rightarrow> update_dataset name (\<lambda>d. d\<lparr>ds_geotransform := g\<rparr>) w)"

text \<open>
  Modelled from the spec: \<open>readBlock(handle, x, y, width, height, outBuffer, outWidth,
  outHeight, dtype, bandCount, pixelStride, lineStride, bandStride)\<close> and the symmetric
  \<open>writeBlock\<close> of the Raster Store (\<open>GDALDatasetRasterIO\<close>, not part of the
  repository). The element of band \<open>b\<close>, line \<open>j\<close> and column \<open>i\<close> of the window
  lies in the buffer at \<open>data + b * bandStride + j * lineStride + i * pixelStride\<close>.
  A call on the null handle, with a window that is not inside the raster or with more
  bands than the dataset has fails and moves nothing; a window of no width or height
  is skipped. The engine always passes the type of the dataset and a buffer window
  of the size of the raster window, so conversion and resampling are left out.
\<close>

definition cells :: "int \<Rightarrow> int \<Rightarrow> int \<Rightarrow> (nat \<times> nat \<times> nat) list" where
  "cells nb ny nx = List.product [0..<nat nb] (List.product [0..<nat ny] [0..<nat nx])"

definition cell_offset :: "rasterio \<Rightarrow> nat \<times> nat \<times> nat \<Rightarrow> int" where
  "cell_offset a p =
     (case p of (b, j, i) \<Rightarrow>
        io_data a + int b * io_bandspace a + int j * io_linespace a + int i * io_pixelspace a)"

definition cell_pixel :: "rasterio \<Rightarrow> nat \<times> nat \<times> nat \<Rightarrow> int \<times> int \<times> int" where
  "cell_pixel a p = (case p of (b, j, i) \<Rightarrow> (int b + 1, io_yoff a + int j, io_xoff a + int i))"

definition byte_at :: "byte list option \<Rightarrow> nat \<Rightarrow> byte" where
  "byte_at v k = (case v of None \<Rightarrow> 0 | Some bs \<Rightarrow> if k < length bs then bs ! k else 0)"

definition read_cell ::
  "rasterio \<Rightarrow> dataset \<Rightarrow> nat \<times> nat \<times> nat \<Rightarrow> (int \<Rightarrow> byte) \<Rightarrow> (int \<Rightarrow> byte)" where
  "read_cell a d p buf =
     fold (\<lambda>k m. m(cell_offset a p + int k := byte_at (ds_pixels d (cell_pixel a p)) k))
       [0..<nat (GDALGetDataTypeSizeBytes (io_type a))] buf"

definition write_cell ::
  "rasterio \<Rightarrow> (int \<Rightarrow> byte) \<Rightarrow> nat \<times> nat \<times> nat \<Rightarrow>
   (int \<times> int \<times> int \<Rightarrow> byte list option) \<Rightarrow> (int \<times> int \<times> int \<Rightarrow> byte list option)" where
  "write_cell a buf p px =
     px(cell_pixel a p \<mapsto>
        map (\<lambda>k. buf (cell_offset a p + int k)) [0..<nat (GDALGetDataTypeSizeBytes (io_type a))])"

definition GDALDatasetRasterIO :: "rasterio \<Rightarrow> world \<Rightarrow> world" where
  "GDALDatasetRasterIO a w =
     (case io_h a of
        None \<Rightarrow> w
      | Some name \<Rightarrow>
          (case files w name of
             None \<Rightarrow> w
           | Some d \<Rightarrow>
               if io_xsize a < 1 \<or> io_ysize a < 1 \<or> io_bufxsize a < 1 \<or> io_bufysize a < 1
               then w
               else if io_xoff a < 0 \<or> io_yoff a < 0 \<or> ds_xsize d < io_xoff a + io_xsize a
                       \<or> ds_ysize d < io_yoff a + io_ysize a
               then w
               else if ds_count d < io_bands a then w
               else if \<not> (io_type a = ds_type d \<and> io_bufxsize a = io_xsize a
                           \<and> io_bufysize a = io_ysize a)
               then w
               else
                 (case io_rw a of
                    GF_Read \<Rightarrow>
                      w\<lparr>buffer :=
                          fold (read_cell a d) (cells (io_bands a) (io_ysize a) (io_xsize a))
                            (buffer w)\<rparr>
                  | GF_Write \<Rightarrow>
                      w\<lparr>files := (files w)(name \<mapsto>
                          d\<lparr>ds_pixels :=
                              fold (write_cell a (buffer w))
                                (cells (io_bands a) (io_ysize a) (io_xsize a))
                                (ds_pixels d)\<rparr>)\<rparr>)))"

subsection \<open>\<open>Usage\<close> and the command line\<close>

definition usage_text :: "string list" where
  "usage_text =
     [''mrf_yzzy transposes the data in a 3rD MRF by swapping the Y and Z axis'',
      ''Usage:'',
      ''mrf_yzzy [-z ZPageSize] [-v] [-g] in.mrf out.mrf'',
      [],
      CHR 0x09 # ''-z ZPageSize : Set the output Y pagesize'',
      CHR 0x09 # ''-v : verbose'',
      CHR 0x09 # ''-g copies the input projection and the area info, which will be wrong anyhow'']"

text \<open>\<open>Usage(message, retcode)\<close>: the lines written to \<open>cerr\<close> and the value returned.\<close>

definition Usage :: "string option \<Rightarrow> int \<Rightarrow> event list \<times> int" where
  "Usage message retcode =
     ((case message of None \<Rightarrow> [] | Some m \<Rightarrow> [Cerr m]) @ map Cerr usage_text, retcode)"

text \<open>The variables the argument loop of \<open>main\<close> sets (lines 25 to 54).\<close>

record options =
  o_verbose :: bool
  o_geo :: bool
  o_psz :: int
  o_fnames :: "string list"

text \<open>
  The argument loop. \<open>None\<close> is undefined behaviour: \<open>-z\<close> as the last argument
  makes \<open>atoi\<close> read the null pointer that ends \<open>argv\<close>, and a number that is not
  an \<open>int\<close> has no defined \<open>atoi\<close>.
\<close>

fun parse_args :: "string list \<Rightarrow> options \<Rightarrow> options option" where
  "parse_args [] os = Some os"
| "parse_args [a] os =
     (if EQUAL a ''-z'' then None
      else if EQUAL a ''-v'' then Some (os\<lparr>o_verbose := True\<rparr>)
      else if EQUAL a ''-g'' then Some (os\<lparr>o_geo := True\<rparr>)
      else Some (os\<lparr>o_fnames := o_fnames os @ [a]\<rparr>))"
| "parse_args (a # v # rest) os =
     (if EQUAL a ''-z'' then
        (if is_int (atoi v) then parse_args rest (os\<lparr>o_psz := atoi v\<rparr>) else None)
      else if EQUAL a ''-v'' then parse_args (v # rest) (os\<lparr>o_verbose := True\<rparr>)
      else if EQUAL a ''-g'' then parse_args (v # rest) (os\<lparr>o_geo := True\<rparr>)
      else parse_args (v # rest) (os\<lparr>o_fnames := o_fnames os @ [a]\<rparr>))"

subsection \<open>The creation options (lines 108 to 155)\<close>

primrec filter_md :: "string list \<Rightarrow> string list \<Rightarrow> string list \<Rightarrow> string list \<times> string list" where
  "filter_md [] copt freeopt = (copt, freeopt)"
| "filter_md (m # md) copt freeopt =
     (if STARTS_WITH_CI m ''COMPRESSION='' then
        filter_md md (copt @ [''COMPRESS='' @ after_equals m]) freeopt
      else if STARTS_WITH_CI m ''ZSLICE='' \<or> STARTS_WITH_CI m ''ZSIZE=''
              \<or> STARTS_WITH_CI m ''V2='' then
        filter_md md copt freeopt
      else if STARTS_WITH_CI m ''V1='' \<or> STARTS_WITH_CI m ''GZ='' \<or> STARTS_WITH_CI m ''ZSTD=''
              \<or> STARTS_WITH_CI m ''RAWZ='' \<or> STARTS_WITH_CI m ''DEFLATE=''
              \<or> STARTS_WITH_CI m ''LERC_PREC='' then
        filter_md md copt (freeopt @ [m])
      else filter_md md (copt @ [m]) freeopt)"

definition join_fopt :: "string list \<Rightarrow> string" where
  "join_fopt freeopt = fold (\<lambda>s fopt. (if fopt \<noteq> [] then fopt @ '' '' else fopt) @ s) freeopt []"

definition creation_options :: "string list \<Rightarrow> int \<Rightarrow> int \<Rightarrow> int \<Rightarrow> string list" where
  "creation_options md bx bz nz =
     (case filter_md md [] [] of
        (copt, freeopt) \<Rightarrow>
          (if join_fopt freeopt \<noteq> [] then copt @ [''OPTIONS='' @ join_fopt freeopt] else copt)
          @ [''BLOCKXSIZE='' @ show_int bx, ''BLOCKYSIZE='' @ show_int bz, ''ZSIZE='' @ show_int nz])"

subsection \<open>The chunk loops (lines 188 to 264)\<close>

text \<open>
  The local variables of \<open>main\<close> that the loops read. \<open>nd\<close> is \<open>Some\<close> of the
  no-data value when \<open>bHasNoData\<close> is set, and \<open>stats\<close> is \<open>Some\<close> of
  \<open>(min_v, max_v, mean_v, stdd_v)\<close> when \<open>bHasStats\<close> is.
\<close>

record ctx =
  SourceName :: string
  TargetName :: string
  geo :: bool
  psz :: int
  zsz :: int
  csz :: int
  xsz :: int
  ysz :: int
  pszx :: int
  pszy :: int
  dt :: GDALDataType
  nd :: "dbl option"
  stats :: "(dbl \<times> dbl \<times> dbl \<times> dbl) option"
  projection :: string
  gt :: geotransform
  copt :: "string list"
  pix_stride :: int
  line_stride :: int
  z_stride :: int
  band_stride :: int

text \<open>
  How a loop ends: it ran to its end, the constructor of a \<open>vector\<close> was given a
  negative length (converted to \<open>size_t\<close> it is beyond \<open>max_size()\<close>, and the
  constructor throws), or a loop counter left the range of \<open>int\<close>.
\<close>

datatype flow = Completed | LengthError | Overflow

text \<open>\<open>Printf("%s:MRF:Z%d", name, z)\<close>\<close>

definition slice_name :: "string \<Rightarrow> int \<Rightarrow> string" where
  "slice_name name z = name @ '':MRF:Z'' @ show_int z"

text \<open>Lines 191 to 197: the handles of the source slices, stored as \<open>GDALOpen\<close> returns them.\<close>

definition open_slices :: "ctx \<Rightarrow> int \<Rightarrow> int \<Rightarrow> world \<Rightarrow> handle list" where
  "open_slices c startz dz w =
     map (\<lambda>z. GDALOpen w (slice_name (SourceName c) (startz + int z))) [0..<nat dz]"

definition open_events :: "ctx \<Rightarrow> int \<Rightarrow> handle list \<Rightarrow> event list" where
  "open_events c startz inh =
     map (\<lambda>z. Open (slice_name (SourceName c) (startz + int z)) (inh ! z)) [0..<length inh]"

text \<open>
  Lines 202 to 217, for the indices \<open>zs\<close> of the Y chunk: the handles of the destination
  slices, the calls made and the store after them.
\<close>

primrec create_slices ::
  "ctx \<Rightarrow> int \<Rightarrow> int list \<Rightarrow> world \<Rightarrow> handle list \<times> event list \<times> world" where
  "create_slices c starty [] w = ([], [], w)"
| "create_slices c starty (z # zs) w =
     (let DName = slice_name (TargetName c) (starty + z);
          hw = GDALCreate w DName (xsz c) (zsz c) (csz c) (dt c) (copt c);
          h = fst hw;
          b = GDALGetRasterBand (snd hw) h 1;
          w1 = (case nd c of None \<Rightarrow> snd hw | Some v \<Rightarrow> GDALSetRasterNoDataValue b v (snd hw));
          w2 = (case stats c of None \<Rightarrow> w1 | Some s \<Rightarrow> GDALSetRasterStatistics b s w1);
          w3 = (if geo c then GDALSetGeoTransform h (gt c) (GDALSetProjection h (projection c) w2)
                else w2);
          evs = Create DName (xsz c) (zsz c) (csz c) (dt c) (copt c) h
                # (case nd c of None \<Rightarrow> [] | Some v \<Rightarrow> [SetNoData b v])
                @ (case stats c of
                     None \<Rightarrow> []
                   | Some (mn, mx, mean, sd) \<Rightarrow> [SetStatistics b mn mx mean sd])
                @ (if geo c then [SetProjection h (projection c), SetGeoTransform h (gt c)] else []);
          r = create_slices c starty zs w3
      in (h # fst r, evs @ fst (snd r), snd (snd r)))"

text \<open>Lines 226 to 240: one read per source slice of the Z chunk.\<close>

definition read_calls ::
  "ctx \<Rightarrow> handle list \<Rightarrow> int \<Rightarrow> int \<Rightarrow> int \<Rightarrow> int \<Rightarrow> int \<Rightarrow> rasterio list" where
  "read_calls c inh startx starty dx dy dz =
     map (\<lambda>z. \<lparr>io_h = inh ! z, io_rw = GF_Read, io_xoff = startx, io_yoff = starty,
                io_xsize = dx, io_ysize = dy, io_data = z_stride c * int z,
                io_bufxsize = dx, io_bufysize = dy, io_type = dt c, io_bands = csz c,
                io_pixelspace = pix_stride c, io_linespace = line_stride c,
                io_bandspace = band_stride c\<rparr>)
       [0..<nat dz]"

text \<open>Lines 243 to 256: one write per destination slice of the Y chunk.\<close>

definition write_calls ::
  "ctx \<Rightarrow> handle list \<Rightarrow> int \<Rightarrow> int \<Rightarrow> int \<Rightarrow> int \<Rightarrow> int \<Rightarrow> rasterio list" where
  "write_calls c outh startx startz dx dz dy =
     map (\<lambda>endz. \<lparr>io_h = outh ! endz, io_rw = GF_Write, io_xoff = startx, io_yoff = startz,
                   io_xsize = dx, io_ysize = dz, io_data = int endz * line_stride c,
                   io_bufxsize = dx, io_bufysize = dz, io_type = dt c, io_bands = csz c,
                   io_pixelspace = pix_stride c, io_linespace = z_stride c,
                   io_bandspace = band_stride c\<rparr>)
       [0..<nat dy]"

text \<open>
  Lines 220 to 257, the loop over \<open>startx\<close>. The first argument bounds the number of
  iterations; \<open>None\<close> is a loop that has not ended within it.
\<close>

primrec xloop ::
  "nat \<Rightarrow> ctx \<Rightarrow> handle list \<Rightarrow> handle list \<Rightarrow> int \<Rightarrow> int \<Rightarrow> int \<Rightarrow> int \<Rightarrow> int \<Rightarrow> world \<Rightarrow>
   (flow \<times> event list \<times> world) option" where
  "xloop 0 c inh outh startz dz starty dy startx w = None"
| "xloop (Suc n) c inh outh startz dz starty dy startx w =
     (if startx < xsz c then
        (let dx = min (pszx c) (xsz c - starty);
             rd = read_calls c inh startx starty dx dy dz;
             wr = write_calls c outh startx startz dx dz dy;
             w2 = fold GDALDatasetRasterIO wr (fold GDALDatasetRasterIO rd w);
             evs = PrintProcessing startx starty startz # map RasterIO rd @ map RasterIO wr
         in if \<not> is_int (startx + pszx c) then Some (Overflow, evs, w2)
            else
              (case xloop n c inh outh startz dz starty dy (startx + pszx c) w2 of
                 None \<Rightarrow> None
               | Some (fl, es, w3) \<Rightarrow> Some (fl, evs @ es, w3)))
      else Some (Completed, [], w))"

text \<open>Lines 199 to 261, the loop over \<open>starty\<close>; \<open>m\<close> bounds the loops inside.\<close>

primrec yloop ::
  "nat \<Rightarrow> nat \<Rightarrow> ctx \<Rightarrow> handle list \<Rightarrow> int \<Rightarrow> int \<Rightarrow> int \<Rightarrow> world \<Rightarrow>
   (flow \<times> event list \<times> world) option" where
  "yloop 0 m c inh startz dz starty w = None"
| "yloop (Suc n) m c inh startz dz starty w =
     (if starty < ysz c then
        (let dy = min (pszy c) (ysz c - starty) in
         if dy < 0 then Some (LengthError, [], w)
         else
           (let cr = create_slices c starty (map int [0..<nat dy]) w;
                outh = fst cr
            in case xloop m c inh outh startz dz starty dy 0 (snd (snd cr)) of
                 None \<Rightarrow> None
               | Some (fl, xe, w2) \<Rightarrow>
                   if fl \<noteq> Completed then Some (fl, fst (snd cr) @ xe, w2)
                   else if \<not> is_int (starty + pszy c)
                   then Some (Overflow, fst (snd cr) @ xe @ map Close outh, w2)
                   else
                     (case yloop n m c inh startz dz (starty + pszy c) w2 of
                        None \<Rightarrow> None
                      | Some (fl', ye, w3) \<Rightarrow>
                          Some (fl', fst (snd cr) @ xe @ map Close outh @ ye, w3))))
      else Some (Completed, [], w))"

text \<open>Lines 188 to 264, the loop over \<open>startz\<close>.\<close>

primrec zloop ::
  "nat \<Rightarrow> nat \<Rightarrow> ctx \<Rightarrow> int \<Rightarrow> world \<Rightarrow> (flow \<times> event list \<times> world) option" where
  "zloop 0 m c startz w = None"
| "zloop (Suc n) m c startz w =
     (if startz < zsz c then
        (let dz = min (psz c) (zsz c - startz) in
         if dz < 0 then Some (LengthError, [], w)
         else
           (let inh = open_slices c startz dz w;
                oe = open_events c startz inh
            in case yloop m m c inh startz dz 0 w of
                 None \<Rightarrow> None
               | Some (fl, ye, w2) \<Rightarrow>
                   if fl \<noteq> Completed then Some (fl, oe @ ye, w2)
                   else if \<not> is_int (startz + psz c)
                   then Some (Overflow, oe @ ye @ map Close inh, w2)
                   else
                     (case zloop n m c (startz + psz c) w2 of
                        None \<Rightarrow> None
                      | Some (fl', ze, w3) \<Rightarrow> Some (fl', oe @ ye @ map Close inh @ ze, w3))))
      else Some (Completed, [], w))"

subsection \<open>\<open>main\<close>\<close>

text \<open>
  How the process ends: \<open>return\<close> or \<open>exit\<close> with a code, \<open>std::terminate\<close> after
  an exception nobody catches, or undefined behaviour.
\<close>

datatype outcome = Exit int | Terminate | UndefinedBehaviour

definition outcome_of :: "flow \<Rightarrow> outcome" where
  "outcome_of fl = (case fl of Completed \<Rightarrow> Exit 0 | LengthError \<Rightarrow> Terminate
                    | Overflow \<Rightarrow> UndefinedBehaviour)"

definition returns :: "event list \<Rightarrow> event list \<times> int \<Rightarrow> world \<Rightarrow> (outcome \<times> event list \<times> world) option" where
  "returns pre u w = Some (Exit (snd u), pre @ fst u, w)"

text \<open>
  Lines 79 to 174 of \<open>main\<close>: the local variables, for the options \<open>os\<close>, the source
  dataset \<open>d\<close> opened under \<open>src\<close>, the answers \<open>hdr\<close> of the driver about it, and
  the value \<open>nz\<close> of its \<open>ZSIZE\<close>. The no-data value, the statistics, the block size
  and the type are those of band 1.
\<close>

definition locals :: "options \<Rightarrow> string \<Rightarrow> string \<Rightarrow> dataset \<Rightarrow> header \<Rightarrow> int \<Rightarrow> ctx" where
  "locals os src tgt d hdr nz =
     (let dtsz = GDALGetDataTypeSizeBytes (ds_type d);
          p = (if o_psz os = 0 then hd_blockx hdr else o_psz os)
      in \<lparr>SourceName = src, TargetName = tgt, geo = o_geo os, psz = p, zsz = nz,
          csz = ds_count d, xsz = ds_xsize d, ysz = ds_ysize d,
          pszx = hd_blockx hdr, pszy = hd_blocky hdr, dt = ds_type d,
          nd = ds_nodata d 1, stats = ds_stats d 1,
          projection = ds_projection d,
          gt = ScaleY (ds_geotransform d) (ds_ysize d) nz,
          copt = creation_options (hd_image_structure hdr) (hd_blockx hdr) p (ds_ysize d),
          pix_stride = dtsz,
          line_stride = hd_blockx hdr * dtsz,
          z_stride = hd_blocky hdr * (hd_blockx hdr * dtsz),
          band_stride = p * (hd_blocky hdr * (hd_blockx hdr * dtsz))\<rparr>)"

text \<open>Line 168: the size of the working buffer, a \<open>size_t\<close>.\<close>

definition BSZ :: "ctx \<Rightarrow> int" where
  "BSZ c = (csz c * psz c * pszy c * pszx c * pix_stride c) mod 2 ^ 64"

text \<open>
  Lines 79 to 267 of \<open>main\<close>. Band 1 is read without a check: a dataset with no band
  leaves \<open>pszx\<close> and \<open>pszy\<close> uninitialised.
\<close>

definition transpose ::
  "nat \<Rightarrow> world \<Rightarrow> options \<Rightarrow> string \<Rightarrow> string \<Rightarrow> dataset \<Rightarrow> header \<Rightarrow> int \<Rightarrow>
   (outcome \<times> event list \<times> world) option" where
  "transpose fuel w os src tgt d hdr nz =
     (let c = locals os src tgt d hdr nz;
          pre = Open src (Some src) # (if o_verbose os then map PrintOption (copt c) else [])
                @ [Close (Some src)]
      in if csz c < 1 then Some (UndefinedBehaviour, [Open src (Some src)], w)
         else if \<not> (is_int (line_stride c) \<and> is_int (z_stride c) \<and> is_int (band_stride c))
         then Some (UndefinedBehaviour, pre, w)
         else if \<not> malloc_ok w (BSZ c) then
           returns pre
             (Usage (Some (''Failed to allocate buffer of size '' @ show_int (BSZ c))) 3) w
         else
           (case zloop fuel fuel c 0 w of
              None \<Rightarrow> None
            | Some (fl, es, w') \<Rightarrow>
                Some (outcome_of fl,
                      pre @ (if o_verbose os then [PrintBufferSize (BSZ c)] else []) @ es, w')))"

text \<open>Lines 25 to 28: the options before the argument loop.\<close>

definition no_options :: options where
  "no_options = \<lparr>o_verbose = False, o_geo = False, o_psz = 0, o_fnames = []\<rparr>"

text \<open>
  \<open>main\<close>, for the argument vector \<open>argv\<close> and the count \<open>nArgc\<close> that
  \<open>GDALGeneralCmdLineProcessor\<close> leaves. \<open>fuel\<close> bounds the iterations of each loop;
  \<open>None\<close> is a run that has not ended within it.
\<close>

definition main ::
  "nat \<Rightarrow> world \<Rightarrow> int \<Rightarrow> string list \<Rightarrow> (outcome \<times> event list \<times> world) option" where
  "main fuel w nArgc argv =
     (if \<not> mrf_driver w then returns [] (Usage (Some ''MRF driver not found'') 1) w
      else if nArgc < 1 then Some (Exit (- nArgc), [], w)
      else
        (case parse_args (take (nat nArgc - 1) (tl argv)) no_options of
           None \<Rightarrow> Some (UndefinedBehaviour, [], w)
         | Some os \<Rightarrow>
             if length (o_fnames os) \<noteq> 2 then returns [] (Usage None 1) w
             else
               (let src = o_fnames os ! 0; tgt = o_fnames os ! 1 in
                case files w src of
                  None \<Rightarrow>
                    Some (Exit 0,
                          [Open src None,
                           CPLError (''Can't open source file '' @ src @ '' for reading'')],
                          w)
                | Some d \<Rightarrow>
                    if \<not> EQUAL (hd_driver (headers w src)) ''MRF'' then
                      returns [Open src (Some src)] (Usage (Some ''Input file is not MRF'') 2) w
                    else
                      (case CSLFetchNameValue (hd_image_structure (headers w src)) ''ZSIZE'' of
                         None \<Rightarrow>
                           returns [Open src (Some src)]
                             (Usage (Some ''Source is not a 3-rd dimension MRF'') 2) w
                       | Some v \<Rightarrow>
                           if \<not> is_int (atoi v)
                           then Some (UndefinedBehaviour, [Open src (Some src)], w)
                           else transpose fuel w os src tgt d (headers w src) (atoi v)))))"

subsection \<open>Reading a run\<close>

definition run_outcome :: "(outcome \<times> event list \<times> world) option \<Rightarrow> outcome option" where
  "run_outcome r = map_option fst r"

definition run_events :: "('a \<times> event list \<times> 'b) option \<Rightarrow> event list" where
  "run_events r = (case r of None \<Rightarrow> [] | Some (out, evs, w) \<Rightarrow> evs)"

definition run_world :: "(outcome \<times> event list \<times> world) option \<Rightarrow> world option" where
  "run_world r = map_option (\<lambda>x. snd (snd x)) r"

text \<open>The pixel stored under a name; \<open>None\<close> also where the name is no dataset.\<close>

definition stored :: "world \<Rightarrow> string \<Rightarrow> int \<times> int \<times> int \<Rightarrow> byte list option" where
  "stored w name p = (case files w name of None \<Rightarrow> None | Some d \<Rightarrow> ds_pixels d p)"

text \<open>The coordinates of the lines \<open>Processing x,y,z\<close> among the events.\<close>

primrec processing :: "event list \<Rightarrow> (int \<times> int \<times> int) list" where
  "processing [] = []"
| "processing (e # es) =
     (case e of PrintProcessing x y z \<Rightarrow> (x, y, z) # processing es | _ \<Rightarrow> processing es)"

text \<open>The creation options printed.\<close>

primrec printed_options :: "event list \<Rightarrow> string list" where
  "printed_options [] = []"
| "printed_options (e # es) =
     (case e of PrintOption s \<Rightarrow> s # printed_options es | _ \<Rightarrow> printed_options es)"

text \<open>The calls that set a no-data value or statistics.\<close>

primrec metadata_calls :: "event list \<Rightarrow> event list" where
  "metadata_calls [] = []"
| "metadata_calls (e # es) =
     (case e of SetNoData b v \<Rightarrow> e # metadata_calls es
      | SetStatistics b mn mx mean sd \<Rightarrow> e # metadata_calls es
      | _ \<Rightarrow> metadata_calls es)"

text \<open>The calls of \<open>GDALDatasetRasterIO\<close> in one direction.\<close>

primrec io_calls :: "GDALRWFlag \<Rightarrow> event list \<Rightarrow> rasterio list" where
  "io_calls rw [] = []"
| "io_calls rw (e # es) =
     (case e of RasterIO a \<Rightarrow> (if io_rw a = rw then a # io_calls rw es else io_calls rw es)
      | _ \<Rightarrow> io_calls rw es)"

text \<open>The events of one iteration of the loop over \<open>startx\<close>.\<close>

definition x_events ::
  "ctx \<Rightarrow> handle list \<Rightarrow> handle list \<Rightarrow> int \<Rightarrow> int \<Rightarrow> int \<Rightarrow> int \<Rightarrow> int \<Rightarrow> event list" where
  "x_events c inh outh startz dz starty dy startx =
     PrintProcessing startx starty startz
     # map RasterIO (read_calls c inh startx starty (min (pszx c) (xsz c - starty)) dy dz)
     @ map RasterIO (write_calls c outh startx startz (min (pszx c) (xsz c - starty)) dz dy)"

text \<open>The band handle \<open>GDALGetRasterBand(h, 1)\<close> of a dataset just created with \<open>nb\<close> bands.\<close>

definition band1 :: "int \<Rightarrow> handle \<Rightarrow> bandh" where
  "band1 nb h = (case h of None \<Rightarrow> None | Some n \<Rightarrow> if 1 \<le> nb then Some (n, 1) else None)"

text \<open>The events of the creation of one destination slice, given the handle returned.\<close>

definition slice_events :: "ctx \<Rightarrow> string \<Rightarrow> handle \<Rightarrow> event list" where
  "slice_events c DName h =
     Create DName (xsz c) (zsz c) (csz c) (dt c) (copt c) h
     # (case nd c of None \<Rightarrow> [] | Some v \<Rightarrow> [SetNoData (band1 (csz c) h) v])
     @ (case stats c of
          None \<Rightarrow> []
        | Some (mn, mx, mean, sd) \<Rightarrow> [SetStatistics (band1 (csz c) h) mn mx mean sd])
     @ (if geo c then [SetProjection h (projection c), SetGeoTransform h (gt c)] else [])"

text \<open>
  How the loops end, computed from the sizes alone: the functions below follow
  \<open>xloop\<close>, \<open>yloop\<close> and \<open>zloop\<close> and leave out the store, the handles and the
  events.
\<close>

primrec xflow :: "nat \<Rightarrow> ctx \<Rightarrow> int \<Rightarrow> flow option" where
  "xflow 0 c startx = None"
| "xflow (Suc n) c startx =
     (if startx < xsz c then
        (if \<not> is_int (startx + pszx c) then Some Overflow else xflow n c (startx + pszx c))
      else Some Completed)"

primrec yflow :: "nat \<Rightarrow> nat \<Rightarrow> ctx \<Rightarrow> int \<Rightarrow> flow option" where
  "yflow 0 m c starty = None"
| "yflow (Suc n) m c starty =
     (if starty < ysz c then
        (if min (pszy c) (ysz c - starty) < 0 then Some LengthError
         else
           (case xflow m c 0 of
              None \<Rightarrow> None
            | Some fl \<Rightarrow>
                if fl \<noteq> Completed then Some fl
                else if \<not> is_int (starty + pszy c) then Some Overflow
                else yflow n m c (starty + pszy c)))
      else Some Completed)"

primrec zflow :: "nat \<Rightarrow> nat \<Rightarrow> ctx \<Rightarrow> int \<Rightarrow> flow option" where
  "zflow 0 m c startz = None"
| "zflow (Suc n) m c startz =
     (if startz < zsz c then
        (if min (psz c) (zsz c - startz) < 0 then Some LengthError
         else
           (case yflow m m c 0 of
              None \<Rightarrow> None
            | Some fl \<Rightarrow>
                if fl \<noteq> Completed then Some fl
                else if \<not> is_int (startz + psz c) then Some Overflow
                else zflow n m c (startz + psz c)))
      else Some Completed)"

text \<open>
  The values a loop counter takes when it starts at \<open>s\<close>, advances by a positive
  \<open>step\<close> and stops at \<open>n\<close>: the chunk starts of one axis.
\<close>

function starts :: "int \<Rightarrow> int \<Rightarrow> int \<Rightarrow> int list" where
  "starts step n s = (if 0 < step \<and> s < n then s # starts step n (s + step) else [])"
  by pat_completeness auto
termination
  by (relation "measure (\<lambda>(step, n, s). nat (n - s))") auto

declare starts.simps [simp del]

text \<open>The chunks of a volume, in the order Z outer, Y middle, X inner, as \<open>(x, y, z)\<close>.\<close>

definition chunk_coordinates :: "ctx \<Rightarrow> (int \<times> int \<times> int) list" where
  "chunk_coordinates c =
     concat (map (\<lambda>z. concat (map (\<lambda>y. map (\<lambda>x. (x, y, z)) (starts (pszx c) (xsz c) 0))
                                   (starts (pszy c) (ysz c) 0)))
                 (starts (psz c) (zsz c) 0))"

subsection \<open>Small volumes to run the program on\<close>

text \<open>
  A source of one band of bytes, \<open>nx\<close> by \<open>ny\<close> pixels in each of its slices, with
  the pixels \<open>px\<close>, the no-data value \<open>nodata\<close> and the statistics \<open>st\<close> on every
  band.
\<close>

definition volume ::
  "int \<Rightarrow> int \<Rightarrow> int \<Rightarrow> dbl option \<Rightarrow> (dbl \<times> dbl \<times> dbl \<times> dbl) option \<Rightarrow>
   (int \<times> int \<times> int \<Rightarrow> byte list option) \<Rightarrow> dataset" where
  "volume nx ny nb nodata st px =
     \<lparr>ds_xsize = nx, ds_ysize = ny, ds_count = nb, ds_type = GDT_Byte, ds_projection = [],
      ds_geotransform = Coefficients [0, 1, 0, 0, 0, 1],
      ds_nodata = (\<lambda>b. nodata), ds_stats = (\<lambda>b. st), ds_pixels = px\<rparr>"

text \<open>
  A store that holds the file \<open>in.mrf\<close> with the one slice \<open>d\<close>, the metadata \<open>md\<close>
  and blocks of \<open>bx\<close> by \<open>bz\<close> pixels; every name can be created and every allocation
  succeeds.
\<close>

definition store_of :: "dataset \<Rightarrow> string list \<Rightarrow> int \<Rightarrow> int \<Rightarrow> world" where
  "store_of d md bx bz =
     \<lparr>mrf_driver = True,
      files = [''in.mrf'' \<mapsto> d, ''in.mrf:MRF:Z0'' \<mapsto> d],
      headers = (\<lambda>n. \<lparr>hd_driver = ''MRF'', hd_image_structure = md,
                       hd_blockx = bx, hd_blocky = bz\<rparr>),
      creatable = (\<lambda>n. True), malloc_ok = (\<lambda>n. True), buffer = (\<lambda>a. 0)\<rparr>"

text \<open>One column of two pixels, 7 and below it \<open>v\<close>, in one slice, in blocks of one pixel.\<close>

definition column :: "byte \<Rightarrow> int \<times> int \<times> int \<Rightarrow> byte list option" where
  "column v p = (if p = (1, 0, 0) then Some [7] else if p = (1, 1, 0) then Some [v] else None)"

definition column_store :: "byte \<Rightarrow> world" where
  "column_store v =
     store_of (volume 1 2 1 None None (column v)) [''COMPRESSION=PNG'', ''ZSIZE=1''] 1 1"

definition argv_plain :: "string list" where
  "argv_plain = [''mrf_yzzy'', ''in.mrf'', ''out.mrf'']"

text \<open>The same column in a file whose \<open>ZSIZE\<close> is 0.\<close>

definition flat_store :: world where
  "flat_store = store_of (volume 1 2 1 None None (column 9)) [''ZSIZE=0''] 1 1"

text \<open>One pixel in blocks of one by two pixels: the only Y chunk is a partial one.\<close>

definition short_store :: world where
  "short_store = store_of (volume 1 1 1 None None (column 9)) [''ZSIZE=1''] 1 2"

text \<open>One pixel of two bands, with a no-data value and statistics.\<close>

definition both_bands :: "int \<times> int \<times> int \<Rightarrow> byte list option" where
  "both_bands p = (if p = (1, 0, 0) then Some [7] else if p = (2, 0, 0) then Some [8] else None)"

definition banded_store :: world where
  "banded_store =
     store_of (volume 1 1 2 (Some 5) (Some (1, 2, 3, 4)) both_bands) [''ZSIZE=1''] 1 1"

text \<open>
  A store in which the file can be opened but none of its slices, and nothing can be
  created: every handle the loops get is null.
\<close>

definition broken_store :: world where
  "broken_store =
     (column_store 9)\<lparr>files := [''in.mrf'' \<mapsto> volume 1 2 1 None None (column 9)],
                       creatable := (\<lambda>n. False)\<rparr>"

text \<open>The column in blocks of one by two pixels: the two lines are one Y chunk.\<close>

definition pair_store :: world where
  "pair_store = store_of (volume 1 2 1 None None (column 9)) [''ZSIZE=1''] 1 2"

text \<open>The column in a file that has no \<open>ZSIZE\<close>.\<close>

definition plain_store :: world where
  "plain_store = store_of (volume 1 2 1 None None (column 9)) [''COMPRESSION=PNG''] 1 1"

text \<open>The file whose \<open>ZSIZE\<close> is 0, where no allocation succeeds.\<close>

definition starved_store :: world where
  "starved_store = flat_store\<lparr>malloc_ok := (\<lambda>n. False)\<rparr>"

text \<open>
  The column where \<open>malloc\<close> refuses \<open>2 ^ 63\<close> bytes and more, as an allocator
  with 64-bit addresses does.
\<close>

definition bounded_store :: world where
  "bounded_store = (column_store 9)\<lparr>malloc_ok := (\<lambda>n. n < 2 ^ 63)\<rparr>"

subsection \<open>The words of the specification\<close>

text \<open>
  The stride formula of the specification, for the element size \<open>e\<close>, the extent
  \<open>bx\<close> of X, the depth extent and the outer extent: the pixel, line, depth and
  band stride.
\<close>

definition spec_strides :: "int \<Rightarrow> int \<Rightarrow> int \<Rightarrow> int \<Rightarrow> int \<times> int \<times> int \<times> int" where
  "spec_strides e bx depth outer = (e, bx * e, depth * (bx * e), outer * (depth * (bx * e)))"

text \<open>\<open>dx = min(pszx, Xsize - startX)\<close>, the extent of the chunk that starts at \<open>startX\<close>.\<close>

definition spec_dx :: "int \<Rightarrow> int \<Rightarrow> int \<Rightarrow> int" where
  "spec_dx bx nx startX = min bx (nx - startX)"

section \<open>Properties\<close>

subsection \<open>Evaluation\<close>

text \<open>The functions on characters, on the bits of the character.\<close>

lemma lower_Char:
  "lower (Char b0 b1 b2 b3 b4 b5 b6 b7) =
     (if b6 \<and> \<not> b5 \<and> \<not> b7 \<and> (b0 \<or> b1 \<or> b2 \<or> b3 \<or> b4) \<and> \<not> (b3 \<and> b4 \<and> (b2 \<or> (b0 \<and> b1)))
      then Char b0 b1 b2 b3 b4 True b6 b7 else Char b0 b1 b2 b3 b4 b5 b6 b7)"
  by (cases b0; cases b1; cases b2; cases b3; cases b4; cases b5; cases b6; cases b7;
      simp add: lower_def)

lemma isspace_Char:
  "isspace (Char b0 b1 b2 b3 b4 b5 b6 b7) =
     (\<not> b7 \<and> \<not> b6 \<and> \<not> b4 \<and>
      ((b5 \<and> \<not> b3 \<and> \<not> b2 \<and> \<not> b1 \<and> \<not> b0) \<or>
       (\<not> b5 \<and> b3 \<and> (b0 \<or> b1 \<or> b2) \<and> \<not> (b2 \<and> b1))))"
  by (cases b0; cases b1; cases b2; cases b3; cases b4; cases b5; cases b6; cases b7;
      simp add: isspace_def)

lemma digit_of_Char:
  "digit_of (Char b0 b1 b2 b3 b4 b5 b6 b7) =
     (if b4 \<and> b5 \<and> \<not> b6 \<and> \<not> b7 \<and> \<not> (b3 \<and> (b2 \<or> b1))
      then Some (of_bool b0 + 2 * of_bool b1 + 4 * of_bool b2 + 8 * of_bool b3) else None)"
  by (cases b0; cases b1; cases b2; cases b3; cases b4; cases b5; cases b6; cases b7;
      simp add: digit_of_def)

lemmas strings =
  EQUAL_def lower_Char STARTS_WITH_CI_def atoi_def isspace_Char digit_of_Char is_int_def
  INT_MAX_def INT_MIN_def show_int_def show_nat.simps after_equals_def slice_name_def

lemmas calls =
  GDALOpen_def GDALCreate_def GDALGetRasterBand_def GDALSetRasterNoDataValue_def
  GDALSetRasterStatistics_def GDALSetProjection_def GDALSetGeoTransform_def update_dataset_def
  GDALDatasetRasterIO_def cells_def cell_offset_def cell_pixel_def byte_at_def read_cell_def
  write_cell_def open_slices_def open_events_def read_calls_def write_calls_def

lemmas runs =
  main_def no_options_def transpose_def locals_def BSZ_def returns_def Usage_def usage_text_def
  creation_options_def join_fopt_def outcome_of_def run_outcome_def run_events_def
  run_world_def stored_def eval_nat_numeral Let_def

lemmas examples =
  volume_def store_of_def column_def column_store_def argv_plain_def flat_store_def
  short_store_def both_bands_def banded_store_def broken_store_def pair_store_def
  plain_store_def starved_store_def bounded_store_def

lemmas lazily =
  option.case_cong_weak prod.case_cong_weak let_weak_cong list.case_cong_weak
  GDALRWFlag.case_cong_weak

subsection \<open>The names of the slices\<close>

text \<open>\<open>%d\<close> prints different numbers differently, so a slice name tells its index.\<close>

lemma digit_inj:
  assumes "d < 10" and "e < 10" and "''0123456789'' ! d = ''0123456789'' ! e"
  shows "d = e"
proof -
  have D: "d \<in> {0, 1, 2, 3, 4, 5, 6, 7, 8, 9}" and E: "e \<in> {0, 1, 2, 3, 4, 5, 6, 7, 8, 9}"
    using assms(1,2) by auto
  from D E assms(3) show ?thesis
    by (auto simp: eval_nat_numeral)
qed

lemma show_nat_snoc:
  "show_nat n = (if n < 10 then [] else show_nat (n div 10)) @ [''0123456789'' ! (n mod 10)]"
  by (subst show_nat.simps) simp

lemma show_nat_not_Nil: "show_nat n \<noteq> []"
  by (subst show_nat.simps) simp

lemma show_nat_inj: "show_nat n = show_nat m \<Longrightarrow> n = m"
proof (induction n arbitrary: m rule: show_nat.induct)
  case (1 n)
  from "1.prems" have eq:
    "(if n < 10 then [] else show_nat (n div 10)) @ [''0123456789'' ! (n mod 10)] =
     (if m < 10 then [] else show_nat (m div 10)) @ [''0123456789'' ! (m mod 10)]"
    by (subst (asm) show_nat_snoc, subst (asm) (2) show_nat_snoc) simp
  then have "''0123456789'' ! (n mod 10) = ''0123456789'' ! (m mod 10)"
    and front: "(if n < 10 then [] else show_nat (n div 10)) =
                (if m < 10 then [] else show_nat (m div 10))"
    by simp_all
  then have md: "n mod 10 = m mod 10"
    by (intro digit_inj) simp_all
  show ?case
  proof (cases "n < 10")
    case True
    with front have "m < 10"
      using show_nat_not_Nil [of "m div 10"] by (auto split: if_splits)
    with True md show ?thesis by simp
  next
    case False
    with front have m: "\<not> m < 10"
      using show_nat_not_Nil [of "n div 10"] by (auto split: if_splits)
    with False front have "show_nat (n div 10) = show_nat (m div 10)"
      by simp
    with "1.IH" False have "n div 10 = m div 10"
      by simp
    with md show ?thesis
      by (metis div_mult_mod_eq)
  qed
qed

lemma slice_name_inj:
  assumes "slice_name name s = slice_name name s'" and "0 \<le> s" and "0 \<le> s'"
  shows "s = s'"
proof -
  from assms have "show_nat (nat s) = show_nat (nat s')"
    by (simp add: slice_name_def show_int_def)
  then have "nat s = nat s'"
    by (rule show_nat_inj)
  with assms(2,3) show ?thesis by simp
qed


subsection \<open>The events of the loops\<close>

lemma xloop_Suc:
  "xloop (Suc n) c inh outh sz dz sy dy sx w =
     (if sx < xsz c then
        (if \<not> is_int (sx + pszx c)
         then Some (Overflow, x_events c inh outh sz dz sy dy sx,
                fold GDALDatasetRasterIO
                  (write_calls c outh sx sz (min (pszx c) (xsz c - sy)) dz dy)
                  (fold GDALDatasetRasterIO
                    (read_calls c inh sx sy (min (pszx c) (xsz c - sy)) dy dz) w))
         else
           (case xloop n c inh outh sz dz sy dy (sx + pszx c)
                   (fold GDALDatasetRasterIO
                     (write_calls c outh sx sz (min (pszx c) (xsz c - sy)) dz dy)
                     (fold GDALDatasetRasterIO
                       (read_calls c inh sx sy (min (pszx c) (xsz c - sy)) dy dz) w)) of
              None \<Rightarrow> None
            | Some (fl, es, w3) \<Rightarrow> Some (fl, x_events c inh outh sz dz sy dy sx @ es, w3)))
      else Some (Completed, [], w))"
  by (simp add: Let_def x_events_def split: option.splits)

lemma xloop_events:
  "xloop k c inh outh sz dz sy dy sx w = Some (fl, evs, w') \<Longrightarrow>
   \<exists>xs. evs = concat (map (x_events c inh outh sz dz sy dy) xs) \<and> (\<forall>x\<in>set xs. x < xsz c)"
proof (induction k arbitrary: sx w fl evs w')
  case 0
  then show ?case by simp
next
  case (Suc k)
  show ?case
  proof (cases "sx < xsz c")
    case False
    with Suc.prems have "evs = []"
      by (simp add: xloop_Suc del: xloop.simps)
    then show ?thesis by (intro exI [of _ "[]"]) simp
  next
    case True
    show ?thesis
    proof (cases "is_int (sx + pszx c)")
      case False
      with True Suc.prems have "evs = x_events c inh outh sz dz sy dy sx"
        by (simp add: xloop_Suc del: xloop.simps)
      with True show ?thesis by (intro exI [of _ "[sx]"]) simp
    next
      case int: True
      with True Suc.prems obtain es w2 where
        rec: "xloop k c inh outh sz dz sy dy (sx + pszx c) w2 = Some (fl, es, w')"
        and evs: "evs = x_events c inh outh sz dz sy dy sx @ es"
        by (auto simp: xloop_Suc simp del: xloop.simps split: option.splits)
      from Suc.IH [OF rec] obtain xs where
        "es = concat (map (x_events c inh outh sz dz sy dy) xs)" "\<forall>x\<in>set xs. x < xsz c"
        by blast
      with evs True show ?thesis by (intro exI [of _ "sx # xs"]) simp
    qed
  qed
qed

lemma xloop_all:
  assumes "xloop k c inh outh sz dz sy dy sx w = Some (fl, evs, w')"
    and "\<And>x. \<forall>e\<in>set (x_events c inh outh sz dz sy dy x). P e"
  shows "\<forall>e\<in>set evs. P e"
  using xloop_events [OF assms(1)] assms(2) by auto

lemma band_of_created:
  "GDALGetRasterBand (snd (GDALCreate w name nx ny nb t opts))
     (fst (GDALCreate w name nx ny nb t opts)) 1 =
   band1 nb (fst (GDALCreate w name nx ny nb t opts))"
  by (simp add: GDALCreate_def GDALGetRasterBand_def band1_def)

lemma create_slices_events:
  "fst (snd (create_slices c sy zs w)) =
   concat (map (\<lambda>(z, h). slice_events c (slice_name (TargetName c) (sy + z)) h)
     (zip zs (fst (create_slices c sy zs w))))"
  by (induction zs arbitrary: w)
     (simp_all add: Let_def band_of_created slice_events_def split: option.splits prod.splits)

lemma create_slices_length: "length (fst (create_slices c sy zs w)) = length zs"
  by (induction zs arbitrary: w) (simp_all add: Let_def)

lemma create_slices_all:
  assumes "\<And>name h. \<forall>e\<in>set (slice_events c name h). P e"
  shows "\<forall>e\<in>set (fst (snd (create_slices c sy zs w))). P e"
  using assms by (subst create_slices_events) (auto dest: set_zip_leftD)

text \<open>The ways one call of the loop over \<open>starty\<close> can end.\<close>

lemma yloop_cases:
  assumes "yloop k m c inh sz dz sy w = Some (fl, evs, w')"
  obtains
    (finished) "\<not> sy < ysz c" "fl = Completed" "evs = []" "w' = w"
  | (thrown) "sy < ysz c" "min (pszy c) (ysz c - sy) < 0" "fl = LengthError" "evs = []" "w' = w"
  | (inner) outh ce w1 xe where
      "sy < ysz c" "\<not> min (pszy c) (ysz c - sy) < 0"
      "create_slices c sy (map int [0..<nat (min (pszy c) (ysz c - sy))]) w = (outh, ce, w1)"
      "xloop m c inh outh sz dz sy (min (pszy c) (ysz c - sy)) 0 w1 = Some (fl, xe, w')"
      "fl \<noteq> Completed" "evs = ce @ xe"
  | (overflow) outh ce w1 xe where
      "sy < ysz c" "\<not> min (pszy c) (ysz c - sy) < 0"
      "create_slices c sy (map int [0..<nat (min (pszy c) (ysz c - sy))]) w = (outh, ce, w1)"
      "xloop m c inh outh sz dz sy (min (pszy c) (ysz c - sy)) 0 w1 = Some (Completed, xe, w')"
      "\<not> is_int (sy + pszy c)" "fl = Overflow" "evs = ce @ xe @ map Close outh"
  | (continue) n outh ce w1 xe w2 ye where
      "k = Suc n" "sy < ysz c" "\<not> min (pszy c) (ysz c - sy) < 0"
      "create_slices c sy (map int [0..<nat (min (pszy c) (ysz c - sy))]) w = (outh, ce, w1)"
      "xloop m c inh outh sz dz sy (min (pszy c) (ysz c - sy)) 0 w1 = Some (Completed, xe, w2)"
      "is_int (sy + pszy c)"
      "yloop n m c inh sz dz (sy + pszy c) w2 = Some (fl, ye, w')"
      "evs = ce @ xe @ map Close outh @ ye"
proof (cases k)
  case 0
  with assms show ?thesis by simp
next
  case (Suc n)
  obtain outh ce w1 where cr:
    "create_slices c sy (map int [0..<nat (min (pszy c) (ysz c - sy))]) w = (outh, ce, w1)"
    by (cases "create_slices c sy (map int [0..<nat (min (pszy c) (ysz c - sy))]) w") auto
  show ?thesis
    using assms Suc cr finished thrown inner [OF _ _ cr] overflow [OF _ _ cr]
      continue [OF Suc _ _ cr]
    by (auto simp: Let_def split: if_splits option.splits)
qed

text \<open>The ways one call of the loop over \<open>startz\<close> can end.\<close>

lemma zloop_cases:
  assumes "zloop k m c sz w = Some (fl, evs, w')"
  obtains
    (finished) "\<not> sz < zsz c" "fl = Completed" "evs = []" "w' = w"
  | (thrown) "sz < zsz c" "min (psz c) (zsz c - sz) < 0" "fl = LengthError" "evs = []" "w' = w"
  | (inner) ye where
      "sz < zsz c" "\<not> min (psz c) (zsz c - sz) < 0"
      "yloop m m c (open_slices c sz (min (psz c) (zsz c - sz)) w) sz (min (psz c) (zsz c - sz)) 0 w
         = Some (fl, ye, w')"
      "fl \<noteq> Completed"
      "evs = open_events c sz (open_slices c sz (min (psz c) (zsz c - sz)) w) @ ye"
  | (overflow) ye where
      "sz < zsz c" "\<not> min (psz c) (zsz c - sz) < 0"
      "yloop m m c (open_slices c sz (min (psz c) (zsz c - sz)) w) sz (min (psz c) (zsz c - sz)) 0 w
         = Some (Completed, ye, w')"
      "\<not> is_int (sz + psz c)" "fl = Overflow"
      "evs = open_events c sz (open_slices c sz (min (psz c) (zsz c - sz)) w) @ ye
             @ map Close (open_slices c sz (min (psz c) (zsz c - sz)) w)"
  | (continue) n ye w2 ze where
      "k = Suc n" "sz < zsz c" "\<not> min (psz c) (zsz c - sz) < 0"
      "yloop m m c (open_slices c sz (min (psz c) (zsz c - sz)) w) sz (min (psz c) (zsz c - sz)) 0 w
         = Some (Completed, ye, w2)"
      "is_int (sz + psz c)"
      "zloop n m c (sz + psz c) w2 = Some (fl, ze, w')"
      "evs = open_events c sz (open_slices c sz (min (psz c) (zsz c - sz)) w) @ ye
             @ map Close (open_slices c sz (min (psz c) (zsz c - sz)) w) @ ze"
proof (cases k)
  case 0
  with assms show ?thesis by simp
next
  case (Suc n)
  show ?thesis
    using assms Suc finished thrown inner overflow continue [OF Suc]
    by (auto simp: Let_def split: if_splits option.splits)
qed

text \<open>A property of every event a loop can emit holds of every event of a run of the loop.\<close>

lemma yloop_all:
  assumes "yloop k m c inh sz dz sy w = Some (fl, evs, w')"
    and X: "\<And>outh y x. \<forall>e\<in>set (x_events c inh outh sz dz y (min (pszy c) (ysz c - y)) x). P e"
    and C: "\<And>name h. \<forall>e\<in>set (slice_events c name h). P e"
    and Cl: "\<And>h. P (Close h)"
  shows "\<forall>e\<in>set evs. P e"
  using assms(1)
proof (induction k arbitrary: sy w fl evs w')
  case 0
  then show ?case by simp
next
  case (Suc k)
  from Suc.prems show ?case
  proof (cases rule: yloop_cases)
    case (continue n outh ce w1 xe w2 ye)
    have "\<forall>e\<in>set ce. P e"
      using create_slices_all [of c P, OF C] continue(4) by (metis fst_conv snd_conv)
    moreover have "\<forall>e\<in>set xe. P e"
      using xloop_all [OF continue(5)] X by blast
    moreover have "\<forall>e\<in>set ye. P e"
      using Suc.IH continue(1,7) by blast
    ultimately show ?thesis using continue(8) Cl by auto
  next
    case (inner outh ce w1 xe)
    have "\<forall>e\<in>set ce. P e"
      using create_slices_all [of c P, OF C] inner(3) by (metis fst_conv snd_conv)
    moreover have "\<forall>e\<in>set xe. P e"
      using xloop_all [OF inner(4)] X by blast
    ultimately show ?thesis using inner(6) by auto
  next
    case (overflow outh ce w1 xe)
    have "\<forall>e\<in>set ce. P e"
      using create_slices_all [of c P, OF C] overflow(3) by (metis fst_conv snd_conv)
    moreover have "\<forall>e\<in>set xe. P e"
      using xloop_all [OF overflow(4)] X by blast
    ultimately show ?thesis using overflow(7) Cl by auto
  qed simp_all
qed

lemma zloop_all:
  assumes "zloop k m c sz w = Some (fl, evs, w')"
    and X: "\<And>inh outh z y x.
      \<forall>e\<in>set (x_events c inh outh z (min (psz c) (zsz c - z)) y (min (pszy c) (ysz c - y)) x). P e"
    and C: "\<And>name h. \<forall>e\<in>set (slice_events c name h). P e"
    and Cl: "\<And>h. P (Close h)"
    and Op: "\<And>name h. P (Open name h)"
  shows "\<forall>e\<in>set evs. P e"
  using assms(1)
proof (induction k arbitrary: sz w fl evs w')
  case 0
  then show ?case by simp
next
  case (Suc k)
  have O: "\<forall>e\<in>set (open_events c sz inh). P e" for inh
    using Op by (auto simp: open_events_def)
  from Suc.prems show ?case
  proof (cases rule: zloop_cases)
    case (continue n ye w2 ze)
    have "\<forall>e\<in>set ye. P e"
      using yloop_all [OF continue(4), of P] X C Cl by blast
    moreover have "\<forall>e\<in>set ze. P e"
      using Suc.IH continue(1,6) by blast
    ultimately show ?thesis using continue(7) Cl O by auto
  next
    case (inner ye)
    have "\<forall>e\<in>set ye. P e"
      using yloop_all [OF inner(3), of P] X C Cl by blast
    then show ?thesis using inner(5) O by auto
  next
    case (overflow ye)
    have "\<forall>e\<in>set ye. P e"
      using yloop_all [OF overflow(3), of P] X C Cl by blast
    then show ?thesis using overflow(6) Cl O by auto
  qed simp_all
qed

lemma x_events_kinds:
  "e \<in> set (x_events c inh outh z dz y dy x) \<Longrightarrow>
   e = PrintProcessing x y z \<or> (\<exists>a. e = RasterIO a)"
  by (auto simp: x_events_def)

lemma x_events_writes:
  "RasterIO a \<in> set (x_events c inh outh z dz y dy x) \<Longrightarrow> io_rw a = GF_Write \<Longrightarrow>
   io_pixelspace a = pix_stride c \<and> io_linespace a = z_stride c \<and>
   io_bandspace a = band_stride c \<and>
   (\<exists>endz. 0 \<le> endz \<and> endz < dy \<and> io_data a = endz * line_stride c)"
proof -
  assume "RasterIO a \<in> set (x_events c inh outh z dz y dy x)" and "io_rw a = GF_Write"
  then obtain i where "i < nat dy"
    and "a = \<lparr>io_h = outh ! i, io_rw = GF_Write, io_xoff = x, io_yoff = z,
               io_xsize = min (pszx c) (xsz c - y), io_ysize = dz,
               io_data = int i * line_stride c,
               io_bufxsize = min (pszx c) (xsz c - y), io_bufysize = dz,
               io_type = dt c, io_bands = csz c, io_pixelspace = pix_stride c,
               io_linespace = z_stride c, io_bandspace = band_stride c\<rparr>"
    by (auto simp: x_events_def read_calls_def write_calls_def)
  then show ?thesis
    by (intro conjI exI [of _ "int i"]) auto
qed

lemma slice_events_kinds:
  "e \<in> set (slice_events c name h) \<Longrightarrow>
   (\<exists>n. e = Create n (xsz c) (zsz c) (csz c) (dt c) (copt c) h) \<or>
   (\<exists>v. e = SetNoData (band1 (csz c) h) v \<and> nd c = Some v) \<or>
   (\<exists>mn mx mean sd. e = SetStatistics (band1 (csz c) h) mn mx mean sd
      \<and> stats c = Some (mn, mx, mean, sd)) \<or>
   e = SetProjection h (projection c) \<or> e = SetGeoTransform h (gt c)"
  by (auto simp: slice_events_def split: option.splits if_splits)

lemma slice_events_meta:
  "SetNoData b v \<in> set (slice_events c name h) \<Longrightarrow> nd c = Some v \<and> b = band1 (csz c) h"
  "SetStatistics b mn mx mean sd \<in> set (slice_events c name h) \<Longrightarrow>
     stats c = Some (mn, mx, mean, sd) \<and> b = band1 (csz c) h"
  by (auto simp: slice_events_def split: option.splits if_splits)

lemma band1_cases: "band1 nb h = None \<or> (\<exists>n. band1 nb h = Some (n, 1))"
  by (simp add: band1_def split: option.splits)

lemma slice_events_sets:
  assumes "Create name nx ny nb t opts (Some n) \<in> set (slice_events c DName h)"
  shows "h = Some n"
    and "nd c = Some v \<Longrightarrow> 1 \<le> csz c \<Longrightarrow> SetNoData (Some (n, 1)) v \<in> set (slice_events c DName h)"
    and "stats c = Some (mn, mx, mean, sd) \<Longrightarrow> 1 \<le> csz c \<Longrightarrow>
         SetStatistics (Some (n, 1)) mn mx mean sd \<in> set (slice_events c DName h)"
  using assms by (auto simp: slice_events_def band1_def split: option.splits if_splits)

lemma create_slices_sets:
  assumes "create_slices c sy zs w = (outh, ce, w1)"
    and "Create name nx ny nb t opts (Some n) \<in> set ce" and "1 \<le> csz c"
  shows "(\<forall>v. nd c = Some v \<longrightarrow> SetNoData (Some (n, 1)) v \<in> set ce) \<and>
         (\<forall>mn mx mean sd. stats c = Some (mn, mx, mean, sd) \<longrightarrow>
            SetStatistics (Some (n, 1)) mn mx mean sd \<in> set ce)"
proof -
  have ce: "ce = concat (map (\<lambda>(z, h). slice_events c (slice_name (TargetName c) (sy + z)) h)
                (zip zs outh))"
    using create_slices_events [of c sy zs w] assms(1) by simp
  with assms(2) obtain z h where zh: "(z, h) \<in> set (zip zs outh)"
    and "Create name nx ny nb t opts (Some n)
           \<in> set (slice_events c (slice_name (TargetName c) (sy + z)) h)"
    by auto
  from slice_events_sets(2,3) [OF this(2)] assms(3) zh show ?thesis
    unfolding ce by fastforce
qed

lemma yloop_respond:
  assumes "yloop k m c inh sz dz sy w = Some (fl, evs, w')"
    and "Create name nx ny nb t opts h \<in> set evs"
    and resp: "\<And>y zs w outh ce w1. create_slices c y zs w = (outh, ce, w1) \<Longrightarrow>
                 Create name nx ny nb t opts h \<in> set ce \<Longrightarrow> R \<in> set ce"
  shows "R \<in> set evs"
  using assms(1,2)
proof (induction k arbitrary: sy w fl evs w')
  case 0
  then show ?case by simp
next
  case (Suc k)
  have nox: "Create name nx ny nb t opts h \<notin> set xe"
    if "xloop m c inh outh sz dz y dy 0 w1 = Some (fl', xe, w2)" for outh y dy w1 fl' xe w2
    using xloop_all [OF that, of "\<lambda>e. e \<noteq> Create name nx ny nb t opts h"]
    by (auto dest: x_events_kinds)
  from Suc.prems(1) show ?case
  proof (cases rule: yloop_cases)
    case (continue n outh ce w1 xe w2 ye)
    with Suc.prems(2) nox [OF continue(5)]
    have "Create name nx ny nb t opts h \<in> set ce \<or> Create name nx ny nb t opts h \<in> set ye"
      by auto
    then show ?thesis
    proof
      assume "Create name nx ny nb t opts h \<in> set ce"
      from resp [OF continue(4) this] continue(8) show ?thesis by simp
    next
      assume "Create name nx ny nb t opts h \<in> set ye"
      with Suc.IH continue(1,7) have "R \<in> set ye" by blast
      with continue(8) show ?thesis by simp
    qed
  next
    case (inner outh ce w1 xe)
    with Suc.prems(2) nox [OF inner(4)] have "Create name nx ny nb t opts h \<in> set ce" by auto
    from resp [OF inner(3) this] inner(6) show ?thesis by simp
  next
    case (overflow outh ce w1 xe)
    with Suc.prems(2) nox [OF overflow(4)] have "Create name nx ny nb t opts h \<in> set ce"
      by auto
    from resp [OF overflow(3) this] overflow(7) show ?thesis by simp
  qed (use Suc.prems(2) in simp_all)
qed

lemma zloop_respond:
  assumes "zloop k m c sz w = Some (fl, evs, w')"
    and "Create name nx ny nb t opts h \<in> set evs"
    and resp: "\<And>y zs w outh ce w1. create_slices c y zs w = (outh, ce, w1) \<Longrightarrow>
                 Create name nx ny nb t opts h \<in> set ce \<Longrightarrow> R \<in> set ce"
  shows "R \<in> set evs"
  using assms(1,2)
proof (induction k arbitrary: sz w fl evs w')
  case 0
  then show ?case by simp
next
  case (Suc k)
  have noo: "Create name nx ny nb t opts h \<notin> set (open_events c sz inh)" for inh
    by (auto simp: open_events_def)
  have y: "R \<in> set ye"
    if "yloop m m c inh sz dz 0 w0 = Some (fl0, ye, w1)" "Create name nx ny nb t opts h \<in> set ye"
    for inh dz w0 fl0 ye w1
  proof (rule yloop_respond [OF that])
    fix y zs w outh ce w1
    assume "create_slices c y zs w = (outh, ce, w1)" "Create name nx ny nb t opts h \<in> set ce"
    then show "R \<in> set ce" by (rule resp)
  qed
  from Suc.prems(1) show ?case
  proof (cases rule: zloop_cases)
    case (continue n ye w2 ze)
    with Suc.prems(2) noo
    have "Create name nx ny nb t opts h \<in> set ye \<or> Create name nx ny nb t opts h \<in> set ze"
      by auto
    then show ?thesis
    proof
      assume "Create name nx ny nb t opts h \<in> set ye"
      from y [OF continue(4) this] continue(7) show ?thesis by simp
    next
      assume "Create name nx ny nb t opts h \<in> set ze"
      with Suc.IH continue(1,6) have "R \<in> set ze" by blast
      with continue(7) show ?thesis by simp
    qed
  next
    case (inner ye)
    with Suc.prems(2) noo have "Create name nx ny nb t opts h \<in> set ye" by auto
    from y [OF inner(3) this] inner(5) show ?thesis by simp
  next
    case (overflow ye)
    with Suc.prems(2) noo have "Create name nx ny nb t opts h \<in> set ye" by auto
    from y [OF overflow(3) this] overflow(6) show ?thesis by simp
  qed (use Suc.prems(2) in simp_all)
qed

subsection \<open>The events of \<open>transpose\<close>\<close>

lemma locals_simps:
  "psz (locals os src tgt d hdr nz) = (if o_psz os = 0 then hd_blockx hdr else o_psz os)"
  "zsz (locals os src tgt d hdr nz) = nz"
  "csz (locals os src tgt d hdr nz) = ds_count d"
  "xsz (locals os src tgt d hdr nz) = ds_xsize d"
  "ysz (locals os src tgt d hdr nz) = ds_ysize d"
  "pszx (locals os src tgt d hdr nz) = hd_blockx hdr"
  "pszy (locals os src tgt d hdr nz) = hd_blocky hdr"
  "nd (locals os src tgt d hdr nz) = ds_nodata d 1"
  "stats (locals os src tgt d hdr nz) = ds_stats d 1"
  "pix_stride (locals os src tgt d hdr nz) = GDALGetDataTypeSizeBytes (ds_type d)"
  "line_stride (locals os src tgt d hdr nz) = hd_blockx hdr * GDALGetDataTypeSizeBytes (ds_type d)"
  "z_stride (locals os src tgt d hdr nz) =
     hd_blocky hdr * (hd_blockx hdr * GDALGetDataTypeSizeBytes (ds_type d))"
  "band_stride (locals os src tgt d hdr nz) =
     (if o_psz os = 0 then hd_blockx hdr else o_psz os)
     * (hd_blocky hdr * (hd_blockx hdr * GDALGetDataTypeSizeBytes (ds_type d)))"
  by (simp_all add: locals_def Let_def)

lemma transpose_events:
  assumes "e \<in> set (run_events (transpose fuel w os src tgt d hdr nz))"
  obtains (prelude) "e = Open src (Some src) \<or> e = Close (Some src) \<or> (\<exists>s. e = PrintOption s)
                     \<or> (\<exists>s. e = Cerr s) \<or> (\<exists>n. e = PrintBufferSize n)"
  | (loops) fl es w' where "1 \<le> ds_count d"
      "zloop fuel fuel (locals os src tgt d hdr nz) 0 w = Some (fl, es, w')" "e \<in> set es"
  using assms
  by (auto simp: transpose_def run_events_def Let_def returns_def Usage_def locals_simps
           split: if_splits option.splits)

lemma transpose_loops:
  assumes "e \<in> set (run_events (transpose fuel w os src tgt d hdr nz))"
    and "\<forall>s. e \<noteq> Cerr s" and "\<forall>s. e \<noteq> PrintOption s" and "\<forall>n. e \<noteq> PrintBufferSize n"
    and "e \<noteq> Open src (Some src)" and "e \<noteq> Close (Some src)"
  obtains fl es w' where "1 \<le> ds_count d"
    and "zloop fuel fuel (locals os src tgt d hdr nz) 0 w = Some (fl, es, w')" and "e \<in> set es"
    and "set es \<subseteq> set (run_events (transpose fuel w os src tgt d hdr nz))"
proof (cases "zloop fuel fuel (locals os src tgt d hdr nz) 0 w")
  case None
  with assms show ?thesis
    by (auto simp: transpose_def run_events_def Let_def returns_def Usage_def locals_simps
             split: if_splits)
next
  case (Some r)
  obtain fl es w' where r: "r = (fl, es, w')"
    by (cases r) auto
  from assms Some r have "1 \<le> ds_count d \<and> e \<in> set es \<and>
      run_events (transpose fuel w os src tgt d hdr nz) =
      (Open src (Some src)
       # (if o_verbose os then map PrintOption (copt (locals os src tgt d hdr nz)) else [])
       @ [Close (Some src)])
      @ (if o_verbose os then [PrintBufferSize (BSZ (locals os src tgt d hdr nz))] else []) @ es"
    by (auto simp: transpose_def run_events_def Let_def returns_def Usage_def locals_simps
             split: if_splits)
  then show ?thesis
    using that [of fl es w'] Some r by auto
qed

subsection \<open>The loops end\<close>





subsection \<open>The lines printed\<close>

lemma processing_append: "processing (xs @ ys) = processing xs @ processing ys"
  by (induction xs) (simp_all split: event.splits)

lemma processing_none: "\<forall>e\<in>set es. \<forall>x y z. e \<noteq> PrintProcessing x y z \<Longrightarrow> processing es = []"
  by (induction es) (simp_all split: event.splits)

lemma processing_x_events: "processing (x_events c inh outh sz dz sy dy sx) = [(sx, sy, sz)]"
  by (simp add: x_events_def processing_append processing_none)

lemma processing_closes: "processing (map Close hs) = []"
  by (rule processing_none) auto

lemma processing_opens: "processing (open_events c sz inh) = []"
  by (rule processing_none) (auto simp: open_events_def)

lemma processing_creates:
  "create_slices c sy zs w = (outh, ce, w1) \<Longrightarrow> processing ce = []"
proof (rule processing_none)
  assume "create_slices c sy zs w = (outh, ce, w1)"
  then have "ce = fst (snd (create_slices c sy zs w))"
    by simp
  moreover have "\<forall>e\<in>set (fst (snd (create_slices c sy zs w))). \<forall>x y z. e \<noteq> PrintProcessing x y z"
    by (rule create_slices_all) (auto dest: slice_events_kinds)
  ultimately show "\<forall>e\<in>set ce. \<forall>x y z. e \<noteq> PrintProcessing x y z"
    by simp
qed

lemma xloop_processing:
  "xloop k c inh outh sz dz sy dy sx w = Some (Completed, evs, w') \<Longrightarrow> 0 < pszx c \<Longrightarrow>
   processing evs = map (\<lambda>x. (x, sy, sz)) (starts (pszx c) (xsz c) sx)"
proof (induction k arbitrary: sx w evs)
  case 0
  then show ?case by simp
next
  case (Suc k)
  show ?case
  proof (cases "sx < xsz c")
    case False
    with Suc.prems show ?thesis
      by (simp add: xloop_Suc starts.simps [of _ _ sx] del: xloop.simps)
  next
    case True
    with Suc.prems obtain es w2 where
      rec: "xloop k c inh outh sz dz sy dy (sx + pszx c) w2 = Some (Completed, es, w')"
      and evs: "evs = x_events c inh outh sz dz sy dy sx @ es"
      by (auto simp: xloop_Suc simp del: xloop.simps split: option.splits if_splits)
    from Suc.IH [OF rec Suc.prems(2)] evs True Suc.prems(2) show ?thesis
      by (simp add: processing_append processing_x_events starts.simps [of _ _ sx])
  qed
qed

lemma yloop_processing:
  "yloop k m c inh sz dz sy w = Some (Completed, evs, w') \<Longrightarrow> 0 < pszx c \<Longrightarrow> 0 < pszy c \<Longrightarrow>
   processing evs =
     concat (map (\<lambda>y. map (\<lambda>x. (x, y, sz)) (starts (pszx c) (xsz c) 0))
               (starts (pszy c) (ysz c) sy))"
proof (induction k arbitrary: sy w evs)
  case 0
  then show ?case by simp
next
  case (Suc k)
  from Suc.prems(1) show ?case
  proof (cases rule: yloop_cases)
    case finished
    then show ?thesis
      by (simp add: starts.simps [of _ _ sy])
  next
    case (continue n outh ce w1 xe w2 ye)
    have "processing ye =
        concat (map (\<lambda>y. map (\<lambda>x. (x, y, sz)) (starts (pszx c) (xsz c) 0))
                  (starts (pszy c) (ysz c) (sy + pszy c)))"
      using Suc.IH continue(1,7) Suc.prems(2,3) by blast
    moreover have "processing xe = map (\<lambda>x. (x, sy, sz)) (starts (pszx c) (xsz c) 0)"
      using xloop_processing [OF continue(5) Suc.prems(2)] .
    ultimately show ?thesis
      using continue(2,8) processing_creates [OF continue(4)] Suc.prems(3)
      by (simp add: processing_append processing_closes starts.simps [of _ _ sy])
  qed simp_all
qed

lemma zloop_processing:
  "zloop k m c sz w = Some (Completed, evs, w') \<Longrightarrow> 0 < pszx c \<Longrightarrow> 0 < pszy c \<Longrightarrow>
   0 < psz c \<Longrightarrow>
   processing evs =
     concat (map (\<lambda>z. concat (map (\<lambda>y. map (\<lambda>x. (x, y, z)) (starts (pszx c) (xsz c) 0))
                                 (starts (pszy c) (ysz c) 0)))
               (starts (psz c) (zsz c) sz))"
proof (induction k arbitrary: sz w evs)
  case 0
  then show ?case by simp
next
  case (Suc k)
  from Suc.prems(1) show ?case
  proof (cases rule: zloop_cases)
    case finished
    then show ?thesis
      by (simp add: starts.simps [of _ _ sz])
  next
    case (continue n ye w2 ze)
    have "processing ze =
        concat (map (\<lambda>z. concat (map (\<lambda>y. map (\<lambda>x. (x, y, z)) (starts (pszx c) (xsz c) 0))
                                    (starts (pszy c) (ysz c) 0)))
                  (starts (psz c) (zsz c) (sz + psz c)))"
      using Suc.IH continue(1,6) Suc.prems(2,3,4) by blast
    moreover have "processing ye =
        concat (map (\<lambda>y. map (\<lambda>x. (x, y, sz)) (starts (pszx c) (xsz c) 0))
                  (starts (pszy c) (ysz c) 0))"
      using yloop_processing [OF continue(4) Suc.prems(2,3)] .
    ultimately show ?thesis
      using continue(2,7) Suc.prems(4)
      by (simp add: processing_append processing_closes processing_opens
            starts.simps [of _ _ sz])
  qed simp_all
qed


lemma printed_options_append:
  "printed_options (xs @ ys) = printed_options xs @ printed_options ys"
  by (induction xs) (simp_all split: event.splits)

lemma printed_options_none: "\<forall>e\<in>set es. \<forall>s. e \<noteq> PrintOption s \<Longrightarrow> printed_options es = []"
  by (induction es) (simp_all split: event.splits)

lemma printed_options_map: "printed_options (map PrintOption l) = l"
  by (induction l) simp_all

lemma zloop_prints_no_option:
  assumes "zloop k m c sz w = Some (fl, es, w')"
  shows "printed_options es = []"
proof (rule printed_options_none, rule zloop_all [OF assms])
  fix inh outh z y x
  show "\<forall>e\<in>set (x_events c inh outh z (min (psz c) (zsz c - z)) y
                   (min (pszy c) (ysz c - y)) x). \<forall>s. e \<noteq> PrintOption s"
    by (auto dest: x_events_kinds)
next
  fix name h
  show "\<forall>e\<in>set (slice_events c name h). \<forall>s. e \<noteq> PrintOption s"
    by (auto dest: slice_events_kinds)
qed simp_all

lemma locals_verbose: "locals (os\<lparr>o_verbose := b\<rparr>) src tgt d hdr nz = locals os src tgt d hdr nz"
  by (simp add: locals_def)

lemma transpose_processing:
  "processing (run_events (transpose fuel w os src tgt d hdr nz)) =
   (if ds_count d < 1
       \<or> \<not> (is_int (line_stride (locals os src tgt d hdr nz))
            \<and> is_int (z_stride (locals os src tgt d hdr nz))
            \<and> is_int (band_stride (locals os src tgt d hdr nz)))
       \<or> \<not> malloc_ok w (BSZ (locals os src tgt d hdr nz))
    then []
    else (case zloop fuel fuel (locals os src tgt d hdr nz) 0 w of
            None \<Rightarrow> []
          | Some (fl, es, w') \<Rightarrow> processing es))"
  by (simp add: transpose_def Let_def run_events_def returns_def Usage_def processing_append
        processing_none locals_simps(3) split: option.splits)

subsection \<open>How the loops end\<close>

text \<open>
  The way a loop ends is the same in every store: it does not depend on the handles
  that \<open>GDALOpen\<close> and \<open>GDALCreate\<close> return.
\<close>

lemma flow_of_case:
  "map_option fst (case r of None \<Rightarrow> None | Some (fl, es, w) \<Rightarrow> Some (fl, f es, w)) =
   map_option fst r"
  by (cases r) auto

lemma xloop_flow: "map_option fst (xloop k c inh outh sz dz sy dy sx w) = xflow k c sx"
proof (induction k arbitrary: sx w)
  case 0
  then show ?case by simp
next
  case (Suc k)
  show ?case
    unfolding xloop_Suc xflow.simps
    by (simp add: Suc.IH flow_of_case [where f = "\<lambda>es. x_events c inh outh sz dz sy dy sx @ es"]
          del: xloop.simps)
qed

lemma yloop_flow: "map_option fst (yloop k m c inh sz dz sy w) = yflow k m c sy"
proof (induction k arbitrary: sy w)
  case 0
  then show ?case by simp
next
  case (Suc k)
  define dy where "dy = min (pszy c) (ysz c - sy)"
  define cr where "cr = create_slices c sy (map int [0..<nat dy]) w"
  define X where "X = xloop m c inh (fst cr) sz dz sy dy 0 (snd (snd cr))"
  have L: "yloop (Suc k) m c inh sz dz sy w =
    (if sy < ysz c then
       if dy < 0 then Some (LengthError, [], w)
       else (case X of
               None \<Rightarrow> None
             | Some (fl, xe, w2) \<Rightarrow>
                 if fl \<noteq> Completed then Some (fl, fst (snd cr) @ xe, w2)
                 else if \<not> is_int (sy + pszy c)
                 then Some (Overflow, fst (snd cr) @ xe @ map Close (fst cr), w2)
                 else (case yloop k m c inh sz dz (sy + pszy c) w2 of
                         None \<Rightarrow> None
                       | Some (fl', ye, w3) \<Rightarrow>
                           Some (fl', fst (snd cr) @ xe @ map Close (fst cr) @ ye, w3)))
     else Some (Completed, [], w))"
    unfolding dy_def cr_def X_def by (simp only: yloop.simps Let_def)
  have R: "yflow (Suc k) m c sy =
    (if sy < ysz c then
       if dy < 0 then Some LengthError
       else (case xflow m c 0 of
               None \<Rightarrow> None
             | Some fl \<Rightarrow>
                 if fl \<noteq> Completed then Some fl
                 else if \<not> is_int (sy + pszy c) then Some Overflow
                 else yflow k m c (sy + pszy c))
     else Some Completed)"
    unfolding dy_def by (simp only: yflow.simps)
  have x: "xflow m c 0 = map_option fst X"
    unfolding X_def by (rule xloop_flow [symmetric])
  have IH: "yflow k m c (sy + pszy c) = map_option fst (yloop k m c inh sz dz (sy + pszy c) w')"
    for w'
    by (rule Suc.IH [symmetric])
  show ?case
  proof (cases X)
    case None
    then show ?thesis
      unfolding L R x by simp
  next
    case (Some r)
    obtain fl xe w2 where r: "r = (fl, xe, w2)"
      by (cases r) auto
    show ?thesis
      unfolding L R x Some r IH [of w2]
      by (cases "yloop k m c inh sz dz (sy + pszy c) w2") auto
  qed
qed

lemma zloop_flow: "map_option fst (zloop k m c sz w) = zflow k m c sz"
proof (induction k arbitrary: sz w)
  case 0
  then show ?case by simp
next
  case (Suc k)
  define dz where "dz = min (psz c) (zsz c - sz)"
  define inh where "inh = open_slices c sz dz w"
  define Y where "Y = yloop m m c inh sz dz 0 w"
  have L: "zloop (Suc k) m c sz w =
    (if sz < zsz c then
       if dz < 0 then Some (LengthError, [], w)
       else (case Y of
               None \<Rightarrow> None
             | Some (fl, ye, w2) \<Rightarrow>
                 if fl \<noteq> Completed then Some (fl, open_events c sz inh @ ye, w2)
                 else if \<not> is_int (sz + psz c)
                 then Some (Overflow, open_events c sz inh @ ye @ map Close inh, w2)
                 else (case zloop k m c (sz + psz c) w2 of
                         None \<Rightarrow> None
                       | Some (fl', ze, w3) \<Rightarrow>
                           Some (fl', open_events c sz inh @ ye @ map Close inh @ ze, w3)))
     else Some (Completed, [], w))"
    unfolding dz_def inh_def Y_def by (simp only: zloop.simps Let_def)
  have R: "zflow (Suc k) m c sz =
    (if sz < zsz c then
       if dz < 0 then Some LengthError
       else (case yflow m m c 0 of
               None \<Rightarrow> None
             | Some fl \<Rightarrow>
                 if fl \<noteq> Completed then Some fl
                 else if \<not> is_int (sz + psz c) then Some Overflow
                 else zflow k m c (sz + psz c))
     else Some Completed)"
    unfolding dz_def by (simp only: zflow.simps)
  have y: "yflow m m c 0 = map_option fst Y"
    unfolding Y_def by (rule yloop_flow [symmetric])
  have IH: "zflow k m c (sz + psz c) = map_option fst (zloop k m c (sz + psz c) w')" for w'
    by (rule Suc.IH [symmetric])
  show ?case
  proof (cases Y)
    case None
    then show ?thesis
      unfolding L R y by simp
  next
    case (Some r)
    obtain fl ye w2 where r: "r = (fl, ye, w2)"
      by (cases r) auto
    show ?thesis
      unfolding L R y Some r IH [of w2]
      by (cases "zloop k m c (sz + psz c) w2") auto
  qed
qed

lemma transpose_outcome:
  "run_outcome (transpose fuel w os src tgt d hdr nz) =
     (if ds_count d < 1
         \<or> \<not> (is_int (line_stride (locals os src tgt d hdr nz))
              \<and> is_int (z_stride (locals os src tgt d hdr nz))
              \<and> is_int (band_stride (locals os src tgt d hdr nz)))
      then Some UndefinedBehaviour
      else if \<not> malloc_ok w (BSZ (locals os src tgt d hdr nz)) then Some (Exit 3)
      else map_option outcome_of (zflow fuel fuel (locals os src tgt d hdr nz) 0))"
proof -
  let ?c = "locals os src tgt d hdr nz"
  have "map_option outcome_of (zflow fuel fuel ?c 0) =
        map_option outcome_of (map_option fst (zloop fuel fuel ?c 0 w))"
    by (simp only: zloop_flow)
  then show ?thesis
    by (cases "zloop fuel fuel ?c 0 w")
       (auto simp: transpose_def Let_def run_outcome_def returns_def Usage_def locals_simps(3))
qed

subsection \<open>The handles in the events\<close>

text \<open>
  Every handle that is opened or created in a loop that completes is read from or
  written to in the first X chunk, and closed.
\<close>

lemma xloop_first:
  assumes "xloop k c inh outh sz dz sy dy 0 w = Some (fl, xe, w')" and "0 < xsz c"
  shows "set (x_events c inh outh sz dz sy dy 0) \<subseteq> set xe"
proof (cases k)
  case 0
  with assms show ?thesis by simp
next
  case (Suc n)
  with assms show ?thesis
    by (auto simp: xloop_Suc simp del: xloop.simps split: if_splits option.splits)
qed

lemma x_events_reads:
  assumes "h \<in> set inh" and "length inh = nat dz"
  shows "\<exists>a. RasterIO a \<in> set (x_events c inh outh sz dz sy dy sx) \<and> io_rw a = GF_Read \<and> io_h a = h"
proof -
  from assms obtain i where i: "i < nat dz" "inh ! i = h"
    by (metis in_set_conv_nth)
  let ?a = "\<lparr>io_h = inh ! i, io_rw = GF_Read, io_xoff = sx, io_yoff = sy,
              io_xsize = min (pszx c) (xsz c - sy), io_ysize = dy, io_data = z_stride c * int i,
              io_bufxsize = min (pszx c) (xsz c - sy), io_bufysize = dy, io_type = dt c,
              io_bands = csz c, io_pixelspace = pix_stride c, io_linespace = line_stride c,
              io_bandspace = band_stride c\<rparr>"
  from i(1) have "RasterIO ?a \<in> set (x_events c inh outh sz dz sy dy sx)"
    by (auto simp: x_events_def read_calls_def image_iff intro!: bexI [of _ i])
  with i(2) show ?thesis
    by (intro exI [of _ ?a]) simp
qed

lemma x_events_writes_to:
  assumes "h \<in> set outh" and "length outh = nat dy"
  shows "\<exists>a. RasterIO a \<in> set (x_events c inh outh sz dz sy dy sx) \<and> io_rw a = GF_Write \<and> io_h a = h"
proof -
  from assms obtain i where i: "i < nat dy" "outh ! i = h"
    by (metis in_set_conv_nth)
  let ?a = "\<lparr>io_h = outh ! i, io_rw = GF_Write, io_xoff = sx, io_yoff = sz,
              io_xsize = min (pszx c) (xsz c - sy), io_ysize = dz,
              io_data = int i * line_stride c,
              io_bufxsize = min (pszx c) (xsz c - sy), io_bufysize = dz, io_type = dt c,
              io_bands = csz c, io_pixelspace = pix_stride c, io_linespace = z_stride c,
              io_bandspace = band_stride c\<rparr>"
  from i(1) have "RasterIO ?a \<in> set (x_events c inh outh sz dz sy dy sx)"
    by (auto simp: x_events_def write_calls_def image_iff intro!: bexI [of _ i])
  with i(2) show ?thesis
    by (intro exI [of _ ?a]) simp
qed

lemma slice_events_handle:
  "Create name nx ny nb t opts h \<in> set (slice_events c DName h') \<Longrightarrow> h = h'"
  by (auto simp: slice_events_def split: option.splits if_splits)

lemma create_slices_handle:
  assumes "create_slices c sy zs w = (outh, ce, w1)"
    and "Create name nx ny nb t opts h \<in> set ce"
  shows "h \<in> set outh"
proof -
  have ce: "ce = concat (map (\<lambda>(z, h). slice_events c (slice_name (TargetName c) (sy + z)) h)
                (zip zs outh))"
    using create_slices_events [of c sy zs w] assms(1) by simp
  with assms(2) obtain z h' where zh: "(z, h') \<in> set (zip zs outh)"
    and "Create name nx ny nb t opts h
           \<in> set (slice_events c (slice_name (TargetName c) (sy + z)) h')"
    by auto
  from slice_events_handle [OF this(2)] zh show ?thesis
    by (auto dest: set_zip_rightD)
qed

lemma open_events_handle:
  "Open name h \<in> set (open_events c sz inh) \<Longrightarrow> h \<in> set inh"
  by (auto simp: open_events_def)

lemma open_slices_length: "length (open_slices c sz dz w) = nat dz"
  by (simp add: open_slices_def)

lemma yloop_created:
  assumes "yloop k m c inh sz dz sy w = Some (Completed, evs, w')"
    and "Create name nx ny nb t opts h \<in> set evs"
  shows "Close h \<in> set evs \<and>
         (0 < xsz c \<longrightarrow> (\<exists>a. RasterIO a \<in> set evs \<and> io_rw a = GF_Write \<and> io_h a = h))"
  using assms
proof (induction k arbitrary: sy w evs w')
  case 0
  then show ?case by simp
next
  case (Suc k)
  from Suc.prems(1) show ?case
  proof (cases rule: yloop_cases)
    case (continue n outh ce w1 xe w2 ye)
    let ?dy = "min (pszy c) (ysz c - sy)"
    have nox: "Create name nx ny nb t opts h \<notin> set xe"
      using xloop_all [OF continue(5), of "\<lambda>e. e \<noteq> Create name nx ny nb t opts h"]
      by (auto dest: x_events_kinds)
    with Suc.prems(2) continue(8)
    have "Create name nx ny nb t opts h \<in> set ce \<or> Create name nx ny nb t opts h \<in> set ye"
      by auto
    then show ?thesis
    proof
      assume "Create name nx ny nb t opts h \<in> set ce"
      from create_slices_handle [OF continue(4) this] have h: "h \<in> set outh" .
      have len: "length outh = nat ?dy"
        using create_slices_length [of c sy "map int [0..<nat ?dy]" w] continue(4) by simp
      have "\<exists>a. RasterIO a \<in> set xe \<and> io_rw a = GF_Write \<and> io_h a = h" if "0 < xsz c"
        using x_events_writes_to [OF h len, of c inh sz dz sy 0] xloop_first [OF continue(5) that]
        by blast
      with h continue(8) show ?thesis by auto
    next
      assume "Create name nx ny nb t opts h \<in> set ye"
      with Suc.IH continue(1,7)
      have "Close h \<in> set ye \<and>
         (0 < xsz c \<longrightarrow> (\<exists>a. RasterIO a \<in> set ye \<and> io_rw a = GF_Write \<and> io_h a = h))"
        by blast
      with continue(8) show ?thesis by auto
    qed
  qed (use Suc.prems(2) in simp_all)
qed

lemma yloop_reads:
  assumes "yloop k m c inh sz dz 0 w = Some (Completed, evs, w')"
    and "0 < ysz c" and "0 < xsz c" and "h \<in> set inh" and "length inh = nat dz"
  shows "\<exists>a. RasterIO a \<in> set evs \<and> io_rw a = GF_Read \<and> io_h a = h"
  using assms(1)
proof (cases rule: yloop_cases)
  case (continue n outh ce w1 xe w2 ye)
  from x_events_reads [OF assms(4,5), of c outh sz 0 "min (pszy c) (ysz c - 0)" 0]
    xloop_first [OF continue(5) assms(3)]
  have "\<exists>a. RasterIO a \<in> set xe \<and> io_rw a = GF_Read \<and> io_h a = h"
    by blast
  with continue(8) show ?thesis by auto
qed (use assms(2) in simp_all)

lemma yloop_opens_nothing:
  assumes "yloop k m c inh sz dz sy w = Some (fl, evs, w')"
  shows "Open name h \<notin> set evs"
  using yloop_all [OF assms, of "\<lambda>e. e \<noteq> Open name h"]
  by (auto dest: x_events_kinds slice_events_kinds)

lemma zloop_opened:
  assumes "zloop k m c sz w = Some (Completed, evs, w')"
    and "Open name h \<in> set evs"
  shows "Close h \<in> set evs \<and>
         (0 < xsz c \<and> 0 < ysz c \<longrightarrow>
            (\<exists>a. RasterIO a \<in> set evs \<and> io_rw a = GF_Read \<and> io_h a = h))"
  using assms
proof (induction k arbitrary: sz w evs w')
  case 0
  then show ?case by simp
next
  case (Suc k)
  from Suc.prems(1) show ?case
  proof (cases rule: zloop_cases)
    case (continue n ye w2 ze)
    let ?dz = "min (psz c) (zsz c - sz)"
    let ?inh = "open_slices c sz ?dz w"
    from Suc.prems(2) continue(7) yloop_opens_nothing [OF continue(4)]
    have "Open name h \<in> set (open_events c sz ?inh) \<or> Open name h \<in> set ze"
      by auto
    then show ?thesis
    proof
      assume "Open name h \<in> set (open_events c sz ?inh)"
      then have h: "h \<in> set ?inh"
        by (rule open_events_handle)
      have "\<exists>a. RasterIO a \<in> set ye \<and> io_rw a = GF_Read \<and> io_h a = h"
        if "0 < xsz c" "0 < ysz c"
        using yloop_reads [OF continue(4) that(2,1) h open_slices_length] .
      with h continue(7) show ?thesis by auto
    next
      assume "Open name h \<in> set ze"
      with Suc.IH continue(1,6)
      have "Close h \<in> set ze \<and>
         (0 < xsz c \<and> 0 < ysz c \<longrightarrow>
            (\<exists>a. RasterIO a \<in> set ze \<and> io_rw a = GF_Read \<and> io_h a = h))"
        by blast
      with continue(7) show ?thesis by auto
    qed
  qed (use Suc.prems(2) in simp_all)
qed

lemma zloop_created:
  assumes "zloop k m c sz w = Some (Completed, evs, w')"
    and "Create name nx ny nb t opts h \<in> set evs"
  shows "Close h \<in> set evs \<and>
         (0 < xsz c \<longrightarrow> (\<exists>a. RasterIO a \<in> set evs \<and> io_rw a = GF_Write \<and> io_h a = h))"
  using assms
proof (induction k arbitrary: sz w evs w')
  case 0
  then show ?case by simp
next
  case (Suc k)
  from Suc.prems(1) show ?case
  proof (cases rule: zloop_cases)
    case (continue n ye w2 ze)
    have "Create name nx ny nb t opts h \<notin> set (open_events c sz inh)" for inh
      by (auto simp: open_events_def)
    with Suc.prems(2) continue(7)
    have "Create name nx ny nb t opts h \<in> set ye \<or> Create name nx ny nb t opts h \<in> set ze"
      by auto
    then show ?thesis
    proof
      assume "Create name nx ny nb t opts h \<in> set ye"
      from yloop_created [OF continue(4) this] continue(7) show ?thesis by auto
    next
      assume "Create name nx ny nb t opts h \<in> set ze"
      with Suc.IH continue(1,6)
      have "Close h \<in> set ze \<and>
         (0 < xsz c \<longrightarrow> (\<exists>a. RasterIO a \<in> set ze \<and> io_rw a = GF_Write \<and> io_h a = h))"
        by blast
      with continue(7) show ?thesis by auto
    qed
  qed (use Suc.prems(2) in simp_all)
qed

subsection \<open>The slot of a write in the buffer\<close>

text \<open>
  Every write is made to the handle that the creation of the slice
  \<open>starty + endz\<close> of a Y chunk returned, from the offset \<open>endz * line_stride\<close>.
\<close>

lemma x_events_write_slot:
  assumes "RasterIO a \<in> set (x_events c inh outh z dz y dy x)" and "io_rw a = GF_Write"
  shows "\<exists>i. i < nat dy \<and> io_h a = outh ! i \<and> io_data a = int i * line_stride c"
  using assms by (auto simp: x_events_def read_calls_def write_calls_def)

lemma xloop_write_slot:
  assumes "xloop k c inh outh sz dz sy dy sx w = Some (fl, xe, w')"
    and "RasterIO a \<in> set xe" and "io_rw a = GF_Write"
  shows "\<exists>i. i < nat dy \<and> io_h a = outh ! i \<and> io_data a = int i * line_stride c"
proof -
  from xloop_events [OF assms(1)] assms(2) obtain x where
    "RasterIO a \<in> set (x_events c inh outh sz dz sy dy x)"
    by auto
  from x_events_write_slot [OF this assms(3)] show ?thesis .
qed

lemma create_slices_nth:
  assumes "i < length zs"
  shows "Create (slice_name (TargetName c) (sy + zs ! i)) (xsz c) (zsz c) (csz c) (dt c) (copt c)
           (fst (create_slices c sy zs w) ! i) \<in> set (fst (snd (create_slices c sy zs w))) \<and>
         (fst (create_slices c sy zs w) ! i = None \<or>
          fst (create_slices c sy zs w) ! i = Some (slice_name (TargetName c) (sy + zs ! i)))"
  using assms
proof (induction zs arbitrary: i w)
  case Nil
  then show ?case by simp
next
  case (Cons z zs)
  show ?case
  proof (cases i)
    case 0
    then show ?thesis
      by (simp add: Let_def GDALCreate_def)
  next
    case (Suc j)
    with Cons.prems have "j < length zs" by simp
    from Cons.IH [OF this] Suc show ?thesis
      by (simp add: Let_def)
  qed
qed

lemma yloop_writes:
  assumes "yloop k m c inh sz dz sy w = Some (fl, evs, w')"
    and "RasterIO a \<in> set evs" and "io_rw a = GF_Write"
  shows "\<exists>j endz. 0 \<le> endz \<and> endz < pszy c \<and> io_data a = endz * line_stride c \<and>
           Create (slice_name (TargetName c) (sy + int j * pszy c + endz))
             (xsz c) (zsz c) (csz c) (dt c) (copt c) (io_h a) \<in> set evs \<and>
           (io_h a = None \<or>
            io_h a = Some (slice_name (TargetName c) (sy + int j * pszy c + endz)))"
  using assms(1,2)
proof (induction k arbitrary: sy w fl evs w')
  case 0
  then show ?case by simp
next
  case (Suc k)
  let ?dy = "min (pszy c) (ysz c - sy)"
  let ?Q = "\<lambda>es j endz. 0 \<le> endz \<and> endz < pszy c \<and> io_data a = endz * line_stride c \<and>
           Create (slice_name (TargetName c) (sy + int j * pszy c + endz))
             (xsz c) (zsz c) (csz c) (dt c) (copt c) (io_h a) \<in> set es \<and>
           (io_h a = None \<or>
            io_h a = Some (slice_name (TargetName c) (sy + int j * pszy c + endz)))"
  have noc: "RasterIO a \<notin> set ce"
    if "create_slices c sy zs w0 = (outh, ce, w1)" for zs w0 outh ce w1
    using create_slices_all [of c "\<lambda>e. e \<noteq> RasterIO a" sy zs w0] that
    by (auto dest: slice_events_kinds)
  have here: "\<exists>endz. ?Q ce 0 endz"
    if cr: "create_slices c sy (map int [0..<nat ?dy]) w = (outh, ce, w1)"
      and x: "xloop m c inh outh sz dz sy ?dy 0 w1 = Some (fl', xe, w2)"
      and a: "RasterIO a \<in> set xe"
    for outh ce w1 fl' xe w2
  proof -
    from xloop_write_slot [OF x a assms(3)] obtain i where
      i: "i < nat ?dy" "io_h a = outh ! i" "io_data a = int i * line_stride c"
      by blast
    from i(1) have "i < length (map int [0..<nat ?dy])" by simp
    from create_slices_nth [OF this, of c sy w] cr i(1,2)
    have "Create (slice_name (TargetName c) (sy + int i)) (xsz c) (zsz c) (csz c) (dt c) (copt c)
            (io_h a) \<in> set ce \<and>
          (io_h a = None \<or> io_h a = Some (slice_name (TargetName c) (sy + int i)))"
      by simp
    with i show ?thesis
      by (intro exI [of _ "int i"]) auto
  qed
  from Suc.prems(1) show ?case
  proof (cases rule: yloop_cases)
    case (continue n outh ce w1 xe w2 ye)
    from Suc.prems(2) continue(8) noc [OF continue(4)]
    have "RasterIO a \<in> set xe \<or> RasterIO a \<in> set ye"
      by auto
    then show ?thesis
    proof
      assume "RasterIO a \<in> set xe"
      from here [OF continue(4,5) this] obtain endz where "?Q ce 0 endz" ..
      with continue(8) have "?Q evs 0 endz" by auto
      then show ?thesis by blast
    next
      assume "RasterIO a \<in> set ye"
      with Suc.IH continue(1,7) obtain j endz where
        "0 \<le> endz \<and> endz < pszy c \<and> io_data a = endz * line_stride c \<and>
           Create (slice_name (TargetName c) (sy + pszy c + int j * pszy c + endz))
             (xsz c) (zsz c) (csz c) (dt c) (copt c) (io_h a) \<in> set ye \<and>
           (io_h a = None \<or>
            io_h a = Some (slice_name (TargetName c) (sy + pszy c + int j * pszy c + endz)))"
        by blast
      moreover have "sy + pszy c + int j * pszy c + endz = sy + int (Suc j) * pszy c + endz"
        by (simp add: algebra_simps)
      ultimately have "?Q evs (Suc j) endz"
        using continue(8) by auto
      then show ?thesis by blast
    qed
  next
    case (inner outh ce w1 xe)
    from Suc.prems(2) inner(6) noc [OF inner(3)] have "RasterIO a \<in> set xe"
      by auto
    from here [OF inner(3,4) this] obtain endz where "?Q ce 0 endz" ..
    with inner(6) have "?Q evs 0 endz" by auto
    then show ?thesis by blast
  next
    case (overflow outh ce w1 xe)
    from Suc.prems(2) overflow(7) noc [OF overflow(3)] have "RasterIO a \<in> set xe"
      by auto
    from here [OF overflow(3,4) this] obtain endz where "?Q ce 0 endz" ..
    with overflow(7) have "?Q evs 0 endz" by auto
    then show ?thesis by blast
  qed (use Suc.prems(2) in simp_all)
qed

lemma zloop_writes:
  assumes "zloop k m c sz w = Some (fl, evs, w')"
    and "RasterIO a \<in> set evs" and "io_rw a = GF_Write"
  shows "\<exists>j endz. 0 \<le> endz \<and> endz < pszy c \<and> io_data a = endz * line_stride c \<and>
           Create (slice_name (TargetName c) (int j * pszy c + endz))
             (xsz c) (zsz c) (csz c) (dt c) (copt c) (io_h a) \<in> set evs \<and>
           (io_h a = None \<or> io_h a = Some (slice_name (TargetName c) (int j * pszy c + endz)))"
  using assms(1,2)
proof (induction k arbitrary: sz w fl evs w')
  case 0
  then show ?case by simp
next
  case (Suc k)
  let ?Q = "\<lambda>es j endz. 0 \<le> endz \<and> endz < pszy c \<and> io_data a = endz * line_stride c \<and>
           Create (slice_name (TargetName c) (int j * pszy c + endz))
             (xsz c) (zsz c) (csz c) (dt c) (copt c) (io_h a) \<in> set es \<and>
           (io_h a = None \<or> io_h a = Some (slice_name (TargetName c) (int j * pszy c + endz)))"
  have noo: "RasterIO a \<notin> set (open_events c sz inh)" for inh
    by (auto simp: open_events_def)
  have y: "\<exists>j endz. ?Q ye j endz"
    if "yloop m m c inh sz dz 0 w0 = Some (fl0, ye, w1)" "RasterIO a \<in> set ye"
    for inh dz w0 fl0 ye w1
    using yloop_writes [OF that assms(3)] by simp
  from Suc.prems(1) show ?case
  proof (cases rule: zloop_cases)
    case (continue n ye w2 ze)
    from Suc.prems(2) continue(7) noo
    have "RasterIO a \<in> set ye \<or> RasterIO a \<in> set ze"
      by auto
    then show ?thesis
    proof
      assume "RasterIO a \<in> set ye"
      from y [OF continue(4) this] obtain j endz where "?Q ye j endz" by blast
      with continue(7) have "?Q evs j endz" by auto
      then show ?thesis by blast
    next
      assume "RasterIO a \<in> set ze"
      with Suc.IH continue(1,6) obtain j endz where "?Q ze j endz" by blast
      with continue(7) have "?Q evs j endz" by auto
      then show ?thesis by blast
    qed
  next
    case (inner ye)
    from Suc.prems(2) inner(5) noo have "RasterIO a \<in> set ye" by auto
    from y [OF inner(3) this] obtain j endz where "?Q ye j endz" by blast
    with inner(5) have "?Q evs j endz" by auto
    then show ?thesis by blast
  next
    case (overflow ye)
    from Suc.prems(2) overflow(6) noo have "RasterIO a \<in> set ye" by auto
    from y [OF overflow(3) this] obtain j endz where "?Q ye j endz" by blast
    with overflow(6) have "?Q evs j endz" by auto
    then show ?thesis by blast
  qed (use Suc.prems(2) in simp_all)
qed

lemma locals_names:
  "TargetName (locals os src tgt d hdr nz) = tgt"
  "SourceName (locals os src tgt d hdr nz) = src"
  "dt (locals os src tgt d hdr nz) = ds_type d"
  by (simp_all add: locals_def Let_def)

subsection \<open>The source cannot be opened\<close>

text \<open>
  C6. For every run in which the source dataset cannot be opened, the program emits a
  diagnostic, creates no destination and stops. The code it returns is 0, the code
  of success: line 67 is \<open>return 0\<close>, where every other failure of \<open>main\<close> returns
  1, 2 or 3 through \<open>Usage\<close>.
\<close>

theorem source_open_failure:
  assumes "mrf_driver w" and "1 \<le> nArgc"
    and "parse_args (take (nat nArgc - 1) (tl argv)) no_options = Some os"
    and "o_fnames os = [src, tgt]"
    and "files w src = None"
  shows "main fuel w nArgc argv =
         Some (Exit 0,
               [Open src None, CPLError (''Can't open source file '' @ src @ '' for reading'')],
               w)"
  using assms by (simp add: main_def)

theorem source_open_failure_witness:
  "mrf_driver (column_store 9) \<and> files (column_store 9) ''missing.mrf'' = None \<and>
   main 0 (column_store 9) 3 [''mrf_yzzy'', ''missing.mrf'', ''out.mrf''] =
   Some (Exit 0,
         [Open ''missing.mrf'' None,
          CPLError ''Can't open source file missing.mrf for reading''],
         column_store 9)"
proof -
  have 1: "mrf_driver (column_store 9)"
    by (simp add: examples)
  have 2: "parse_args (take (nat 3 - 1) (tl [''mrf_yzzy'', ''missing.mrf'', ''out.mrf'']))
             no_options = Some (no_options\<lparr>o_fnames := [''missing.mrf'', ''out.mrf'']\<rparr>)"
    by (simp add: strings no_options_def)
  have 3: "files (column_store 9) ''missing.mrf'' = None"
    by (simp add: examples)
  show ?thesis
    using 1 3 source_open_failure [OF 1 _ 2 _ 3, of "''out.mrf''" 0] by simp
qed

subsection \<open>The check of \<open>ZSIZE\<close>\<close>

text \<open>
  C7, as the claim states it, fails: a source whose \<open>ZSIZE\<close> is 0 is not rejected.
  The run of \<open>flat_store\<close> prints no diagnostic and returns 0.
\<close>

theorem zsize_0_accepted:
  "run_outcome (main 1 flat_store 3 argv_plain) = Some (Exit 0) \<and>
   run_events (main 1 flat_store 3 argv_plain) =
     [Open ''in.mrf'' (Some ''in.mrf''), Close (Some ''in.mrf'')]"
  by (simp add: runs strings calls examples cong: lazily)

text \<open>
  C7, amended. A source without \<open>ZSIZE\<close> is rejected with the diagnostic and the
  code 2, after the source was opened and before anything else is opened, created,
  read or written. A source whose \<open>ZSIZE\<close> is there and is read by \<open>atoi\<close> as
  an \<open>int\<close> that is not positive is not rejected for it, and \<open>main\<close> goes on as for
  any other value: the behaviour is undefined
  where the source has no band or a stride leaves \<open>int\<close>, a buffer that cannot be
  allocated is reported with the code 3, and otherwise the loops make no iteration,
  nothing is created, no diagnostic is printed and \<open>main\<close> returns 0.
\<close>

theorem zsize_check:
  assumes "mrf_driver w" and "1 \<le> nArgc"
    and "parse_args (take (nat nArgc - 1) (tl argv)) no_options = Some os"
    and "o_fnames os = [src, tgt]"
    and "files w src = Some d"
    and "EQUAL (hd_driver (headers w src)) ''MRF''"
  shows "(CSLFetchNameValue (hd_image_structure (headers w src)) ''ZSIZE'' = None \<longrightarrow>
            main fuel w nArgc argv =
            Some (Exit 2,
                  [Open src (Some src), Cerr ''Source is not a 3-rd dimension MRF'']
                  @ map Cerr usage_text, w)) \<and>
         (\<forall>v. CSLFetchNameValue (hd_image_structure (headers w src)) ''ZSIZE'' = Some v \<and>
               is_int (atoi v) \<and> atoi v \<le> 0 \<longrightarrow>
            main (Suc fuel) w nArgc argv =
            (if ds_count d < 1 then Some (UndefinedBehaviour, [Open src (Some src)], w)
             else if \<not> (is_int (line_stride (locals os src tgt d (headers w src) (atoi v))) \<and>
                        is_int (z_stride (locals os src tgt d (headers w src) (atoi v))) \<and>
                        is_int (band_stride (locals os src tgt d (headers w src) (atoi v))))
             then Some (UndefinedBehaviour,
                        Open src (Some src)
                        # (if o_verbose os
                           then map PrintOption
                                  (copt (locals os src tgt d (headers w src) (atoi v)))
                           else [])
                        @ [Close (Some src)], w)
             else if \<not> malloc_ok w (BSZ (locals os src tgt d (headers w src) (atoi v)))
             then Some (Exit 3,
                        Open src (Some src)
                        # (if o_verbose os
                           then map PrintOption
                                  (copt (locals os src tgt d (headers w src) (atoi v)))
                           else [])
                        @ [Close (Some src),
                           Cerr (''Failed to allocate buffer of size ''
                                 @ show_int (BSZ (locals os src tgt d (headers w src) (atoi v))))]
                        @ map Cerr usage_text, w)
             else Some (Exit 0,
                        Open src (Some src)
                        # (if o_verbose os
                           then map PrintOption
                                  (copt (locals os src tgt d (headers w src) (atoi v)))
                           else [])
                        @ [Close (Some src)]
                        @ (if o_verbose os
                           then [PrintBufferSize
                                   (BSZ (locals os src tgt d (headers w src) (atoi v)))]
                           else []),
                        w)))"
proof (intro conjI impI allI)
  assume "CSLFetchNameValue (hd_image_structure (headers w src)) ''ZSIZE'' = None"
  with assms show "main fuel w nArgc argv =
      Some (Exit 2,
            [Open src (Some src), Cerr ''Source is not a 3-rd dimension MRF'']
            @ map Cerr usage_text, w)"
    by (simp add: main_def returns_def Usage_def)
next
  fix v
  let ?c = "locals os src tgt d (headers w src) (atoi v)"
  let ?pre = "Open src (Some src)
              # (if o_verbose os then map PrintOption (copt ?c) else []) @ [Close (Some src)]"
  assume a: "CSLFetchNameValue (hd_image_structure (headers w src)) ''ZSIZE'' = Some v \<and>
       is_int (atoi v) \<and> atoi v \<le> 0"
  have z: "zsz ?c = atoi v" and n: "csz ?c = ds_count d"
    by (simp_all add: locals_def Let_def)
  have loop: "zloop (Suc fuel) (Suc fuel) ?c 0 w = Some (Completed, [], w)"
    using a z by simp
  from a assms have "main (Suc fuel) w nArgc argv = transpose (Suc fuel) w os src tgt d (headers w src) (atoi v)"
    by (simp add: main_def del: zloop.simps)
  also have "\<dots> =
      (if ds_count d < 1 then Some (UndefinedBehaviour, [Open src (Some src)], w)
       else if \<not> (is_int (line_stride ?c) \<and> is_int (z_stride ?c) \<and> is_int (band_stride ?c))
       then Some (UndefinedBehaviour, ?pre, w)
       else if \<not> malloc_ok w (BSZ ?c)
       then Some (Exit 3,
                  Open src (Some src)
                  # (if o_verbose os then map PrintOption (copt ?c) else [])
                  @ [Close (Some src),
                     Cerr (''Failed to allocate buffer of size '' @ show_int (BSZ ?c))]
                  @ map Cerr usage_text, w)
       else Some (Exit 0,
                  ?pre @ (if o_verbose os then [PrintBufferSize (BSZ ?c)] else []), w))"
    unfolding transpose_def Let_def loop n
    by (simp add: outcome_of_def returns_def Usage_def del: zloop.simps)
  finally show "main (Suc fuel) w nArgc argv =
      (if ds_count d < 1 then Some (UndefinedBehaviour, [Open src (Some src)], w)
       else if \<not> (is_int (line_stride ?c) \<and> is_int (z_stride ?c) \<and> is_int (band_stride ?c))
       then Some (UndefinedBehaviour,
                  Open src (Some src)
                  # (if o_verbose os then map PrintOption (copt ?c) else [])
                  @ [Close (Some src)], w)
       else if \<not> malloc_ok w (BSZ ?c)
       then Some (Exit 3,
                  Open src (Some src)
                  # (if o_verbose os then map PrintOption (copt ?c) else [])
                  @ [Close (Some src),
                     Cerr (''Failed to allocate buffer of size '' @ show_int (BSZ ?c))]
                  @ map Cerr usage_text, w)
       else Some (Exit 0,
                  Open src (Some src)
                  # (if o_verbose os then map PrintOption (copt ?c) else [])
                  @ [Close (Some src)]
                  @ (if o_verbose os then [PrintBufferSize (BSZ ?c)] else []),
                  w))"
    by simp
qed

theorem zsize_check_witness:
  "main 1 plain_store 3 argv_plain =
     Some (Exit 2,
           [Open ''in.mrf'' (Some ''in.mrf''), Cerr ''Source is not a 3-rd dimension MRF'']
           @ map Cerr usage_text, plain_store) \<and>
   main 1 flat_store 3 argv_plain =
     Some (Exit 0, [Open ''in.mrf'' (Some ''in.mrf''), Close (Some ''in.mrf'')], flat_store) \<and>
   main 1 starved_store 3 argv_plain =
     Some (Exit 3,
           [Open ''in.mrf'' (Some ''in.mrf''), Close (Some ''in.mrf''),
            Cerr ''Failed to allocate buffer of size 1'']
           @ map Cerr usage_text, starved_store)"
proof -
  let ?d = "volume 1 2 1 None None (column 9)"
  let ?os = "no_options\<lparr>o_fnames := [''in.mrf'', ''out.mrf'']\<rparr>"
  have 1: "mrf_driver plain_store" "mrf_driver flat_store" "mrf_driver starved_store"
    and 5: "files plain_store ''in.mrf'' = Some ?d" "files flat_store ''in.mrf'' = Some ?d"
      "files starved_store ''in.mrf'' = Some ?d"
    by (simp_all add: examples)
  have 3: "parse_args (take (nat 3 - 1) (tl argv_plain)) no_options = Some ?os"
    by (simp add: strings no_options_def examples)
  have 4: "o_fnames ?os = [''in.mrf'', ''out.mrf'']"
    by simp
  have 6: "EQUAL (hd_driver (headers plain_store ''in.mrf'')) ''MRF''"
    "EQUAL (hd_driver (headers flat_store ''in.mrf'')) ''MRF''"
    "EQUAL (hd_driver (headers starved_store ''in.mrf'')) ''MRF''"
    by (simp_all add: strings examples)
  have 7: "CSLFetchNameValue (hd_image_structure (headers plain_store ''in.mrf'')) ''ZSIZE''
           = None"
    "CSLFetchNameValue (hd_image_structure (headers flat_store ''in.mrf'')) ''ZSIZE''
           = Some ''0''"
    "CSLFetchNameValue (hd_image_structure (headers starved_store ''in.mrf'')) ''ZSIZE''
           = Some ''0''"
    by (simp_all add: strings examples)
  have 8: "atoi ''0'' = 0"
    by (simp add: strings)
  have 9: "locals ?os ''in.mrf'' ''out.mrf'' ?d (headers flat_store ''in.mrf'') 0 =
           \<lparr>SourceName = ''in.mrf'', TargetName = ''out.mrf'', geo = False, psz = 1, zsz = 0,
            csz = 1, xsz = 1, ysz = 2, pszx = 1, pszy = 1, dt = GDT_Byte, nd = None,
            stats = None, projection = [],
            gt = ScaleY (Coefficients [0, 1, 0, 0, 0, 1]) 2 0,
            copt = [''BLOCKXSIZE=1'', ''BLOCKYSIZE=1'', ''ZSIZE=2''],
            pix_stride = 1, line_stride = 1, z_stride = 1, band_stride = 1\<rparr>"
    "headers starved_store ''in.mrf'' = headers flat_store ''in.mrf''"
    by (simp_all add: locals_def creation_options_def join_fopt_def no_options_def strings
          examples)
  have 10: "malloc_ok flat_store n" "\<not> malloc_ok starved_store n" for n
    by (simp_all add: examples)
  have 11: "show_int 1 = ''1''"
    by (simp add: strings)
  from zsize_check [OF 1(1) _ 3 4 5(1) 6(1), of 1] 7(1)
  have a: "main 1 plain_store 3 argv_plain =
     Some (Exit 2,
           [Open ''in.mrf'' (Some ''in.mrf''), Cerr ''Source is not a 3-rd dimension MRF'']
           @ map Cerr usage_text, plain_store)"
    by simp
  from zsize_check [OF 1(2) _ 3 4 5(2) 6(2), of 0]
  have b: "main 1 flat_store 3 argv_plain =
     Some (Exit 0, [Open ''in.mrf'' (Some ''in.mrf''), Close (Some ''in.mrf'')], flat_store)"
    using 7(2) 8 9 10
    by (simp add: no_options_def is_int_def INT_MIN_def INT_MAX_def volume_def)
  from zsize_check [OF 1(3) _ 3 4 5(3) 6(3), of 0]
  have c: "main 1 starved_store 3 argv_plain =
     Some (Exit 3,
           [Open ''in.mrf'' (Some ''in.mrf''), Close (Some ''in.mrf''),
            Cerr ''Failed to allocate buffer of size 1'']
           @ map Cerr usage_text, starved_store)"
    using 7(3) 8 9 10 11
    by (simp add: no_options_def is_int_def INT_MIN_def INT_MAX_def volume_def BSZ_def)
  from a b c show ?thesis by (intro conjI)
qed

subsection \<open>The extent \<open>dx\<close> of a chunk\<close>

text \<open>
  C2. The extent passed to the reads and writes is to be \<open>dx = min(pszx, Xsize - startX)\<close>.
  Line 221 of the source computes \<open>min(pszx, xsz - starty)\<close>. On the column of two
  pixels in blocks of one pixel, the chunk at \<open>startx = 0\<close>, \<open>starty = 1\<close> is read
  with the width 0, where the specification gives 1.
\<close>

theorem dx_follows_starty:
  "map (\<lambda>a. (io_xoff a, io_yoff a, io_xsize a, io_ysize a))
     (io_calls GF_Read (run_events (main 3 (column_store 9) 3 argv_plain))) =
     [(0, 0, 1, 1), (0, 1, 0, 1)] \<and>
   spec_dx 1 1 0 = 1"
  by (simp add: runs strings calls examples spec_dx_def cong: lazily)

subsection \<open>What reaches the destination\<close>

text \<open>
  C1. Every voxel is to be read and written once, so that the destination holds at
  (x, z, y) what the source holds at (x, y, z). On the column of two pixels the run
  ends with the code 0 and the destination slice 0 holds the pixel of line 0, but the
  pixel of line 1 of the source, a 9, is never written to the destination slice 1,
  which the run created: the extent of line 221 is 0 there.
\<close>

theorem second_chunk_not_transposed:
  "map_option (\<lambda>r. (fst r, stored (snd (snd r)) ''out.mrf:MRF:Z0'' (1, 0, 0),
                     files (snd (snd r)) ''out.mrf:MRF:Z1'' \<noteq> None,
                     stored (snd (snd r)) ''out.mrf:MRF:Z1'' (1, 0, 0)))
     (main 3 (column_store 9) 3 argv_plain) =
   Some (Exit 0, Some [7], True, None) \<and>
   stored (column_store 9) ''in.mrf:MRF:Z0'' (1, 1, 0) = Some [9]"
  by (simp add: runs strings calls examples cong: lazily)

text \<open>
  C5. Transposing the output again is to give the original back. Two columns that
  differ in the pixel of line 1 are transposed to the same events and the same
  destination slices, so nothing run on the output tells them apart.
\<close>

theorem transposition_loses_voxels:
  "run_outcome (main 3 (column_store 9) 3 argv_plain) = Some (Exit 0) \<and>
   map_option (\<lambda>r. (fst r, fst (snd r), files (snd (snd r)) ''out.mrf:MRF:Z0'',
                     files (snd (snd r)) ''out.mrf:MRF:Z1''))
     (main 3 (column_store 9) 3 argv_plain) =
   map_option (\<lambda>r. (fst r, fst (snd r), files (snd (snd r)) ''out.mrf:MRF:Z0'',
                     files (snd (snd r)) ''out.mrf:MRF:Z1''))
     (main 3 (column_store 5) 3 argv_plain) \<and>
   stored (column_store 9) ''in.mrf:MRF:Z0'' (1, 1, 0) = Some [9] \<and>
   stored (column_store 5) ''in.mrf:MRF:Z0'' (1, 1, 0) = Some [5]"
  by (simp add: runs strings calls examples cong: lazily)

subsection \<open>The strides of a write\<close>

text \<open>
  C3, as the claim states it, fails: the band stride of a write does not vary with
  \<open>dy\<close>. In \<open>short_store\<close> the only Y chunk has \<open>dy = 1\<close> and the write is
  made with the line spacing 2 and the band spacing 2, where the formula of the
  specification, with the outer extent \<open>dy = 1\<close> and the depth extent \<open>psz = 1\<close>,
  gives 1 and 1.
\<close>

theorem write_strides_counterexample:
  "map (\<lambda>a. (io_ysize a, io_data a)) (io_calls GF_Read (run_events (main 2 short_store 3 argv_plain)))
     = [(1, 0)] \<and>
   map (\<lambda>a. (io_data a, io_pixelspace a, io_linespace a, io_bandspace a))
     (io_calls GF_Write (run_events (main 2 short_store 3 argv_plain))) = [(0, 1, 2, 2)] \<and>
   spec_strides 1 1 1 1 = (1, 1, 1, 1)"
  by (simp add: runs strings calls examples spec_strides_def cong: lazily)

text \<open>
  C3, amended. Every write is made with the strides of lines 171 to 174, computed
  once from the nominal chunk: the pixel spacing is the element size \<open>e\<close>, the line
  spacing is \<open>z_stride = pszy * pszx * e\<close> and the band spacing is
  \<open>band_stride = psz * pszy * pszx * e\<close>. None of them depends on \<open>dy\<close>. The
  write goes to the handle that the creation of a destination slice returned, the
  slice \<open>k * pszy + endz\<close> with \<open>0 \<le> endz < pszy\<close>, and its data start at
  \<open>endz * pszx * e\<close>: a write to the slice \<open>s\<close> takes its data from the offset
  \<open>(s mod pszy) * pszx * e\<close>.
\<close>

theorem write_strides:
  assumes "RasterIO a \<in> set (run_events (transpose fuel w os src tgt d hdr nz))"
    and "io_rw a = GF_Write"
  shows "io_pixelspace a = GDALGetDataTypeSizeBytes (ds_type d) \<and>
         io_linespace a = hd_blocky hdr * (hd_blockx hdr * GDALGetDataTypeSizeBytes (ds_type d)) \<and>
         io_bandspace a =
           (if o_psz os = 0 then hd_blockx hdr else o_psz os)
           * (hd_blocky hdr * (hd_blockx hdr * GDALGetDataTypeSizeBytes (ds_type d))) \<and>
         (\<exists>k endz. 0 \<le> k \<and> 0 \<le> endz \<and> endz < hd_blocky hdr \<and>
            io_data a = endz * (hd_blockx hdr * GDALGetDataTypeSizeBytes (ds_type d)) \<and>
            Create (slice_name tgt (k * hd_blocky hdr + endz)) (ds_xsize d) nz (ds_count d)
              (ds_type d) (copt (locals os src tgt d hdr nz)) (io_h a)
              \<in> set (run_events (transpose fuel w os src tgt d hdr nz))) \<and>
         (\<forall>s. 0 \<le> s \<and> io_h a = Some (slice_name tgt s) \<longrightarrow>
            io_data a =
              (s mod hd_blocky hdr) * (hd_blockx hdr * GDALGetDataTypeSizeBytes (ds_type d)))"
proof -
  let ?c = "locals os src tgt d hdr nz"
  let ?E = "run_events (transpose fuel w os src tgt d hdr nz)"
  let ?e = "GDALGetDataTypeSizeBytes (ds_type d)"
  from assms(1) obtain fl es w' where
    z: "zloop fuel fuel ?c 0 w = Some (fl, es, w')" and a: "RasterIO a \<in> set es"
    and sub: "set es \<subseteq> set ?E"
    by (rule transpose_loops) simp_all
  have "\<forall>e\<in>set es. \<forall>a. e = RasterIO a \<longrightarrow> io_rw a = GF_Write \<longrightarrow>
      io_pixelspace a = pix_stride ?c \<and> io_linespace a = z_stride ?c \<and>
      io_bandspace a = band_stride ?c"
  proof (rule zloop_all [OF z])
    fix inh outh z y x
    show "\<forall>e\<in>set (x_events ?c inh outh z (min (psz ?c) (zsz ?c - z)) y
                     (min (pszy ?c) (ysz ?c - y)) x).
            \<forall>a. e = RasterIO a \<longrightarrow> io_rw a = GF_Write \<longrightarrow>
              io_pixelspace a = pix_stride ?c \<and> io_linespace a = z_stride ?c \<and>
              io_bandspace a = band_stride ?c"
      using x_events_writes [of _ ?c inh outh z _ y "min (pszy ?c) (ysz ?c - y)" x]
      by fastforce
  next
    fix name h
    show "\<forall>e\<in>set (slice_events ?c name h).
            \<forall>a. e = RasterIO a \<longrightarrow> io_rw a = GF_Write \<longrightarrow>
              io_pixelspace a = pix_stride ?c \<and> io_linespace a = z_stride ?c \<and>
              io_bandspace a = band_stride ?c"
      by (auto dest: slice_events_kinds)
  qed simp_all
  with a assms(2) have strides:
    "io_pixelspace a = ?e" "io_linespace a = hd_blocky hdr * (hd_blockx hdr * ?e)"
    "io_bandspace a =
       (if o_psz os = 0 then hd_blockx hdr else o_psz os) * (hd_blocky hdr * (hd_blockx hdr * ?e))"
    by (simp_all add: locals_simps)
  from zloop_writes [OF z a assms(2)] obtain j endz where
    endz: "0 \<le> endz" "endz < hd_blocky hdr" "io_data a = endz * (hd_blockx hdr * ?e)"
    and cr: "Create (slice_name tgt (int j * hd_blocky hdr + endz)) (ds_xsize d) nz (ds_count d)
              (ds_type d) (copt ?c) (io_h a) \<in> set es"
    and h: "io_h a = None \<or> io_h a = Some (slice_name tgt (int j * hd_blocky hdr + endz))"
    by (auto simp: locals_simps locals_names)
  have slot: "io_data a = (s mod hd_blocky hdr) * (hd_blockx hdr * ?e)"
    if "0 \<le> s \<and> io_h a = Some (slice_name tgt s)" for s
  proof -
    from that h have "slice_name tgt s = slice_name tgt (int j * hd_blocky hdr + endz)"
      by auto
    moreover from endz have "0 \<le> int j * hd_blocky hdr + endz"
      by simp
    ultimately have "s = int j * hd_blocky hdr + endz"
      using that by (intro slice_name_inj) simp_all
    with endz have "s mod hd_blocky hdr = endz"
      by simp
    with endz(3) show ?thesis by simp
  qed
  from endz cr sub have
    "\<exists>k endz. 0 \<le> k \<and> 0 \<le> endz \<and> endz < hd_blocky hdr \<and>
       io_data a = endz * (hd_blockx hdr * ?e) \<and>
       Create (slice_name tgt (k * hd_blocky hdr + endz)) (ds_xsize d) nz (ds_count d)
         (ds_type d) (copt ?c) (io_h a) \<in> set ?E"
    by (intro exI [of _ "int j"] exI [of _ endz]) auto
  with strides slot show ?thesis
    by blast
qed

theorem write_strides_witness:
  "RasterIO \<lparr>io_h = Some ''out.mrf:MRF:Z1'', io_rw = GF_Write, io_xoff = 0, io_yoff = 0,
            io_xsize = 1, io_ysize = 1, io_data = 1, io_bufxsize = 1, io_bufysize = 1,
            io_type = GDT_Byte, io_bands = 1, io_pixelspace = 1, io_linespace = 2,
            io_bandspace = 2\<rparr>
     \<in> set (run_events (transpose 2 pair_store no_options ''in.mrf'' ''out.mrf''
                (volume 1 2 1 None None (column 9)) (headers pair_store ''in.mrf'') 1)) \<and>
   slice_name ''out.mrf'' 1 = ''out.mrf:MRF:Z1'' \<and>
   hd_blockx (headers pair_store ''in.mrf'') = 1 \<and>
   hd_blocky (headers pair_store ''in.mrf'') = 2 \<and>
   GDALGetDataTypeSizeBytes (ds_type (volume 1 2 1 None None (column 9))) = 1"
proof -
  let ?a = "\<lparr>io_h = Some ''out.mrf:MRF:Z1'', io_rw = GF_Write, io_xoff = 0, io_yoff = 0,
            io_xsize = 1, io_ysize = 1, io_data = 1, io_bufxsize = 1, io_bufysize = 1,
            io_type = GDT_Byte, io_bands = 1, io_pixelspace = 1, io_linespace = 2,
            io_bandspace = 2\<rparr>"
  have m: "RasterIO ?a
     \<in> set (run_events (transpose 2 pair_store no_options ''in.mrf'' ''out.mrf''
                (volume 1 2 1 None None (column 9)) (headers pair_store ''in.mrf'') 1))"
    by (simp add: runs strings calls examples cong: lazily)
  have n: "slice_name ''out.mrf'' 1 = ''out.mrf:MRF:Z1''"
    by (simp add: strings)
  have h: "hd_blockx (headers pair_store ''in.mrf'') = 1"
    "hd_blocky (headers pair_store ''in.mrf'') = 2"
    "GDALGetDataTypeSizeBytes (ds_type (volume 1 2 1 None None (column 9))) = 1"
    by (simp_all add: examples)
  from write_strides [OF m] m n h show ?thesis
    by simp
qed

subsection \<open>No-data value and statistics\<close>

text \<open>
  C4, as the claim states it, fails: the values are set on band 1 only. The
  destination of the two bands of \<open>banded_store\<close> gets the no-data value and the
  statistics on its band 1 and nothing on its band 2.
\<close>

theorem metadata_not_on_band_2:
  "map_option (\<lambda>r. map_option (\<lambda>d. (ds_count d, ds_nodata d 1, ds_nodata d 2,
                                        ds_stats d 1, ds_stats d 2))
                     (files (snd (snd r)) ''out.mrf:MRF:Z0''))
     (main 2 banded_store 3 argv_plain) =
   Some (Some (2, Some 5, None, Some (1, 2, 3, 4), None)) \<and>
   metadata_calls (run_events (main 2 banded_store 3 argv_plain)) =
     [SetNoData (Some (''out.mrf:MRF:Z0'', 1)) 5,
      SetStatistics (Some (''out.mrf:MRF:Z0'', 1)) 1 2 3 4]"
  by (simp add: runs strings calls examples cong: lazily)

text \<open>
  C4, amended. The no-data value and the statistics of band 1 of the source are set
  on band 1 of every destination slice that is created, and on no other band: every
  call that sets one carries the value of band 1 of the source and addresses band 1
  (or the null band, where the creation failed), and every slice created gets the
  calls.
\<close>

theorem metadata_on_band_1:
  "(SetNoData b v \<in> set (run_events (transpose fuel w os src tgt d hdr nz)) \<longrightarrow>
      ds_nodata d 1 = Some v \<and> (b = None \<or> (\<exists>n. b = Some (n, 1)))) \<and>
   (SetStatistics b mn mx mean sd \<in> set (run_events (transpose fuel w os src tgt d hdr nz)) \<longrightarrow>
      ds_stats d 1 = Some (mn, mx, mean, sd) \<and> (b = None \<or> (\<exists>n. b = Some (n, 1)))) \<and>
   (Create name nx ny nb t opts (Some n)
      \<in> set (run_events (transpose fuel w os src tgt d hdr nz)) \<longrightarrow>
      (\<forall>v. ds_nodata d 1 = Some v \<longrightarrow>
         SetNoData (Some (n, 1)) v \<in> set (run_events (transpose fuel w os src tgt d hdr nz))) \<and>
      (\<forall>mn mx mean sd. ds_stats d 1 = Some (mn, mx, mean, sd) \<longrightarrow>
         SetStatistics (Some (n, 1)) mn mx mean sd
           \<in> set (run_events (transpose fuel w os src tgt d hdr nz))))"
proof -
  let ?c = "locals os src tgt d hdr nz"
  let ?evs = "run_events (transpose fuel w os src tgt d hdr nz)"
  let ?P = "\<lambda>e. (\<forall>b v. e = SetNoData b v \<longrightarrow>
                   nd ?c = Some v \<and> (b = None \<or> (\<exists>n. b = Some (n, 1)))) \<and>
                (\<forall>b mn mx mean sd. e = SetStatistics b mn mx mean sd \<longrightarrow>
                   stats ?c = Some (mn, mx, mean, sd) \<and> (b = None \<or> (\<exists>n. b = Some (n, 1))))"
  have nds: "nd ?c = ds_nodata d 1" "stats ?c = ds_stats d 1"
    by (simp_all add: locals_simps)
  have inv: "\<forall>e\<in>set es. ?P e" if "zloop fuel fuel ?c 0 w = Some (fl, es, w')" for fl es w'
  proof (rule zloop_all [OF that])
    fix inh outh z y x
    show "\<forall>e\<in>set (x_events ?c inh outh z (min (psz ?c) (zsz ?c - z)) y
                     (min (pszy ?c) (ysz ?c - y)) x). ?P e"
      by (auto dest: x_events_kinds)
  next
    fix name h
    show "\<forall>e\<in>set (slice_events ?c name h). ?P e"
    proof
      fix e
      assume e: "e \<in> set (slice_events ?c name h)"
      show "?P e"
      proof (rule conjI; intro allI impI)
        fix b v
        assume "e = SetNoData b v"
        with e have "nd ?c = Some v \<and> b = band1 (csz ?c) h"
          using slice_events_meta(1) by blast
        with band1_cases [of "csz ?c" h]
        show "nd ?c = Some v \<and> (b = None \<or> (\<exists>n. b = Some (n, 1)))"
          by auto
      next
        fix b mn mx mean sd
        assume "e = SetStatistics b mn mx mean sd"
        with e have "stats ?c = Some (mn, mx, mean, sd) \<and> b = band1 (csz ?c) h"
          using slice_events_meta(2) by blast
        with band1_cases [of "csz ?c" h]
        show "stats ?c = Some (mn, mx, mean, sd) \<and> (b = None \<or> (\<exists>n. b = Some (n, 1)))"
          by auto
      qed
    qed
  qed simp_all
  show ?thesis
  proof (intro conjI impI)
    assume a: "SetNoData b v \<in> set ?evs"
    then obtain fl es w' where "zloop fuel fuel ?c 0 w = Some (fl, es, w')"
      and "SetNoData b v \<in> set es"
      by (rule transpose_loops) simp_all
    with inv nds show "ds_nodata d 1 = Some v" and "b = None \<or> (\<exists>n. b = Some (n, 1))"
      by fastforce+
  next
    assume a: "SetStatistics b mn mx mean sd \<in> set ?evs"
    then obtain fl es w' where "zloop fuel fuel ?c 0 w = Some (fl, es, w')"
      and "SetStatistics b mn mx mean sd \<in> set es"
      by (rule transpose_loops) simp_all
    with inv nds show "ds_stats d 1 = Some (mn, mx, mean, sd)"
      and "b = None \<or> (\<exists>n. b = Some (n, 1))"
      by fastforce+
  next
    assume a: "Create name nx ny nb t opts (Some n) \<in> set ?evs"
    then obtain fl es w' where c1: "1 \<le> ds_count d"
      and z: "zloop fuel fuel ?c 0 w = Some (fl, es, w')"
      and e: "Create name nx ny nb t opts (Some n) \<in> set es"
      and sub: "set es \<subseteq> set ?evs"
      by (rule transpose_loops) simp_all
    from c1 have c1': "1 \<le> csz ?c"
      by (simp add: locals_simps)
    have "SetNoData (Some (n, 1)) v \<in> set es" if "nd ?c = Some v" for v
    proof (rule zloop_respond [OF z e])
      fix y zs w outh ce w1
      assume "create_slices ?c y zs w = (outh, ce, w1)"
        and "Create name nx ny nb t opts (Some n) \<in> set ce"
      from create_slices_sets [OF this c1'] that show "SetNoData (Some (n, 1)) v \<in> set ce"
        by blast
    qed
    with sub nds show "\<forall>v. ds_nodata d 1 = Some v \<longrightarrow> SetNoData (Some (n, 1)) v \<in> set ?evs"
      by auto
    have "SetStatistics (Some (n, 1)) mn mx mean sd \<in> set es"
      if "stats ?c = Some (mn, mx, mean, sd)" for mn mx mean sd
    proof (rule zloop_respond [OF z e])
      fix y zs w outh ce w1
      assume "create_slices ?c y zs w = (outh, ce, w1)"
        and "Create name nx ny nb t opts (Some n) \<in> set ce"
      from create_slices_sets [OF this c1'] that
      show "SetStatistics (Some (n, 1)) mn mx mean sd \<in> set ce"
        by blast
    qed
    with sub nds show "\<forall>mn mx mean sd. ds_stats d 1 = Some (mn, mx, mean, sd) \<longrightarrow>
             SetStatistics (Some (n, 1)) mn mx mean sd \<in> set ?evs"
      by auto
  qed
qed

theorem metadata_on_band_1_witness:
  "Create ''out.mrf:MRF:Z0'' 1 1 2 GDT_Byte [''BLOCKXSIZE=1'', ''BLOCKYSIZE=1'', ''ZSIZE=1'']
     (Some ''out.mrf:MRF:Z0'')
     \<in> set (run_events (transpose 2 banded_store no_options ''in.mrf'' ''out.mrf''
                (volume 1 1 2 (Some 5) (Some (1, 2, 3, 4)) both_bands)
                (headers banded_store ''in.mrf'') 1)) \<and>
   SetNoData (Some (''out.mrf:MRF:Z0'', 1)) 5
     \<in> set (run_events (transpose 2 banded_store no_options ''in.mrf'' ''out.mrf''
                (volume 1 1 2 (Some 5) (Some (1, 2, 3, 4)) both_bands)
                (headers banded_store ''in.mrf'') 1)) \<and>
   SetStatistics (Some (''out.mrf:MRF:Z0'', 1)) 1 2 3 4
     \<in> set (run_events (transpose 2 banded_store no_options ''in.mrf'' ''out.mrf''
                (volume 1 1 2 (Some 5) (Some (1, 2, 3, 4)) both_bands)
                (headers banded_store ''in.mrf'') 1))"
proof -
  let ?d = "volume 1 1 2 (Some 5) (Some (1, 2, 3, 4)) both_bands"
  let ?evs = "run_events (transpose 2 banded_store no_options ''in.mrf'' ''out.mrf'' ?d
                (headers banded_store ''in.mrf'') 1)"
  have m: "Create ''out.mrf:MRF:Z0'' 1 1 2 GDT_Byte
             [''BLOCKXSIZE=1'', ''BLOCKYSIZE=1'', ''ZSIZE=1''] (Some ''out.mrf:MRF:Z0'')
           \<in> set ?evs"
    by (simp add: runs strings calls examples cong: lazily)
  have n: "ds_nodata ?d 1 = Some 5" and s: "ds_stats ?d 1 = Some (1, 2, 3, 4)"
    by (simp_all add: volume_def)
  from metadata_on_band_1 [of _ _ 2 banded_store no_options "''in.mrf''" "''out.mrf''" ?d
      "headers banded_store ''in.mrf''" 1 _ _ _ _ "''out.mrf:MRF:Z0''" 1 1 2 GDT_Byte
      "[''BLOCKXSIZE=1'', ''BLOCKYSIZE=1'', ''ZSIZE=1'']" "''out.mrf:MRF:Z0''"]
  show ?thesis
    using m n s by blast
qed

subsection \<open>The page size and the end of the loops\<close>




subsection \<open>Progress output\<close>

text \<open>
  C8, as the claim states it, fails: a run without \<open>-v\<close> prints the coordinates of
  every chunk. Line 222 is not under \<open>if (verbose)\<close>.
\<close>

theorem quiet_run_prints_chunks:
  "map_option o_verbose (parse_args (tl argv_plain) no_options) = Some False \<and>
   processing (run_events (main 3 (column_store 9) 3 argv_plain)) = [(0, 0, 0), (0, 1, 0)]"
  by (simp add: runs strings calls examples cong: lazily)

text \<open>
  C8, amended. The progress lines do not depend on the verbose mode: the runs with
  and without it print the same coordinates, and a run that ends with the code 0
  prints the coordinates of every chunk, in the order of the loops. The verbose mode
  adds the list of the creation options (and the size of the buffer): a run that ends
  with the code 0 prints the list when verbose is set and no option otherwise.
\<close>

theorem progress_is_unconditional:
  "processing (run_events (transpose fuel w (os\<lparr>o_verbose := True\<rparr>) src tgt d hdr nz)) =
   processing (run_events (transpose fuel w (os\<lparr>o_verbose := False\<rparr>) src tgt d hdr nz)) \<and>
   (run_outcome (transpose fuel w os src tgt d hdr nz) = Some (Exit 0) \<and>
    0 < psz (locals os src tgt d hdr nz) \<and> 0 < hd_blockx hdr \<and> 0 < hd_blocky hdr \<longrightarrow>
      processing (run_events (transpose fuel w os src tgt d hdr nz)) =
      chunk_coordinates (locals os src tgt d hdr nz)) \<and>
   (run_outcome (transpose fuel w os src tgt d hdr nz) = Some (Exit 0) \<longrightarrow>
      printed_options (run_events (transpose fuel w os src tgt d hdr nz)) =
      (if o_verbose os then copt (locals os src tgt d hdr nz) else []))"
proof (intro conjI impI)
  show "processing (run_events (transpose fuel w (os\<lparr>o_verbose := True\<rparr>) src tgt d hdr nz)) =
        processing (run_events (transpose fuel w (os\<lparr>o_verbose := False\<rparr>) src tgt d hdr nz))"
    by (simp only: transpose_processing locals_verbose)
next
  let ?c = "locals os src tgt d hdr nz"
  assume a: "run_outcome (transpose fuel w os src tgt d hdr nz) = Some (Exit 0) \<and>
    0 < psz ?c \<and> 0 < hd_blockx hdr \<and> 0 < hd_blocky hdr"
  then obtain es w' where z: "zloop fuel fuel ?c 0 w = Some (Completed, es, w')"
    and ok: "\<not> (ds_count d < 1
       \<or> \<not> (is_int (line_stride ?c) \<and> is_int (z_stride ?c) \<and> is_int (band_stride ?c))
       \<or> \<not> malloc_ok w (BSZ ?c))"
    by (auto simp: transpose_def Let_def run_outcome_def returns_def Usage_def outcome_of_def
          locals_simps(3) split: if_splits option.splits flow.splits)
  from zloop_processing [OF z] a have "processing es = chunk_coordinates ?c"
    by (simp add: chunk_coordinates_def locals_simps)
  with z ok show "processing (run_events (transpose fuel w os src tgt d hdr nz)) =
      chunk_coordinates ?c"
    by (simp only: transpose_processing) simp
next
  let ?c = "locals os src tgt d hdr nz"
  assume "run_outcome (transpose fuel w os src tgt d hdr nz) = Some (Exit 0)"
  then obtain es w' where z: "zloop fuel fuel ?c 0 w = Some (Completed, es, w')"
    and ok: "\<not> (ds_count d < 1
       \<or> \<not> (is_int (line_stride ?c) \<and> is_int (z_stride ?c) \<and> is_int (band_stride ?c))
       \<or> \<not> malloc_ok w (BSZ ?c))"
    by (auto simp: transpose_def Let_def run_outcome_def returns_def Usage_def outcome_of_def
          locals_simps(3) split: if_splits option.splits flow.splits)
  from z ok zloop_prints_no_option [OF z]
  show "printed_options (run_events (transpose fuel w os src tgt d hdr nz)) =
      (if o_verbose os then copt ?c else [])"
    by (simp add: transpose_def Let_def run_events_def locals_simps(3) printed_options_append
          printed_options_map)
qed

theorem progress_is_unconditional_witness:
  "run_outcome (transpose 3 (column_store 9) no_options ''in.mrf'' ''out.mrf''
     (volume 1 2 1 None None (column 9)) (headers (column_store 9) ''in.mrf'') 1) = Some (Exit 0) \<and>
   processing (run_events (transpose 3 (column_store 9) no_options ''in.mrf'' ''out.mrf''
     (volume 1 2 1 None None (column 9)) (headers (column_store 9) ''in.mrf'') 1)) =
   [(0, 0, 0), (0, 1, 0)] \<and>
   printed_options (run_events (transpose 3 (column_store 9) no_options ''in.mrf'' ''out.mrf''
     (volume 1 2 1 None None (column 9)) (headers (column_store 9) ''in.mrf'') 1)) = []"
proof -
  let ?d = "volume 1 2 1 None None (column 9)"
  let ?h = "headers (column_store 9) ''in.mrf''"
  let ?c = "locals no_options ''in.mrf'' ''out.mrf'' ?d ?h 1"
  have out: "run_outcome (transpose 3 (column_store 9) no_options ''in.mrf'' ''out.mrf'' ?d ?h 1)
             = Some (Exit 0)"
    by (simp add: runs strings calls examples cong: lazily)
  have h: "psz ?c = 1" "hd_blockx ?h = 1" "hd_blocky ?h = 1" "\<not> o_verbose no_options"
    by (simp_all add: locals_simps no_options_def examples)
  have cc: "chunk_coordinates ?c = [(0, 0, 0), (0, 1, 0)]"
    by (simp add: chunk_coordinates_def locals_simps starts.simps no_options_def examples)
  from progress_is_unconditional [of 3 "column_store 9" no_options "''in.mrf''" "''out.mrf''" ?d ?h 1]
  show ?thesis
    using out h cc by simp
qed

subsection \<open>Handles that are null\<close>

text \<open>
  C10. The results of \<open>GDALOpen\<close> for a source slice and of \<open>GDALCreate\<close>
  for a destination slice are never checked. How a run ends is the same whatever files
  the store holds and whatever it lets create. In a run that ends with the code 0,
  every handle returned for a source slice, null or not, is closed and, where the
  volume has a pixel, passed to a read; every handle returned for a destination slice
  is closed and, where the volume has a column, passed to a write.
\<close>

theorem handles_are_not_checked:
  "run_outcome (transpose fuel (w\<lparr>files := f, creatable := cr\<rparr>) os src tgt d hdr nz) =
   run_outcome (transpose fuel w os src tgt d hdr nz) \<and>
   (run_outcome (transpose fuel w os src tgt d hdr nz) = Some (Exit 0) \<longrightarrow>
      (\<forall>name h. name \<noteq> src \<and>
          Open name h \<in> set (run_events (transpose fuel w os src tgt d hdr nz)) \<longrightarrow>
          Close h \<in> set (run_events (transpose fuel w os src tgt d hdr nz)) \<and>
          (0 < ds_xsize d \<and> 0 < ds_ysize d \<longrightarrow>
             (\<exists>a. RasterIO a \<in> set (run_events (transpose fuel w os src tgt d hdr nz)) \<and>
                  io_rw a = GF_Read \<and> io_h a = h))) \<and>
      (\<forall>name nx ny nb t opts h.
          Create name nx ny nb t opts h
            \<in> set (run_events (transpose fuel w os src tgt d hdr nz)) \<longrightarrow>
          Close h \<in> set (run_events (transpose fuel w os src tgt d hdr nz)) \<and>
          (0 < ds_xsize d \<longrightarrow>
             (\<exists>a. RasterIO a \<in> set (run_events (transpose fuel w os src tgt d hdr nz)) \<and>
                  io_rw a = GF_Write \<and> io_h a = h))))"
proof (rule conjI)
  show "run_outcome (transpose fuel (w\<lparr>files := f, creatable := cr\<rparr>) os src tgt d hdr nz) =
        run_outcome (transpose fuel w os src tgt d hdr nz)"
    by (simp only: transpose_outcome) simp
next
  let ?c = "locals os src tgt d hdr nz"
  let ?E = "run_events (transpose fuel w os src tgt d hdr nz)"
  show "run_outcome (transpose fuel w os src tgt d hdr nz) = Some (Exit 0) \<longrightarrow>
      (\<forall>name h. name \<noteq> src \<and> Open name h \<in> set ?E \<longrightarrow>
          Close h \<in> set ?E \<and>
          (0 < ds_xsize d \<and> 0 < ds_ysize d \<longrightarrow>
             (\<exists>a. RasterIO a \<in> set ?E \<and> io_rw a = GF_Read \<and> io_h a = h))) \<and>
      (\<forall>name nx ny nb t opts h. Create name nx ny nb t opts h \<in> set ?E \<longrightarrow>
          Close h \<in> set ?E \<and>
          (0 < ds_xsize d \<longrightarrow>
             (\<exists>a. RasterIO a \<in> set ?E \<and> io_rw a = GF_Write \<and> io_h a = h)))"
  proof
    assume "run_outcome (transpose fuel w os src tgt d hdr nz) = Some (Exit 0)"
    then obtain es w' where z: "zloop fuel fuel ?c 0 w = Some (Completed, es, w')"
      and ok: "\<not> (ds_count d < 1
         \<or> \<not> (is_int (line_stride ?c) \<and> is_int (z_stride ?c) \<and> is_int (band_stride ?c))
         \<or> \<not> malloc_ok w (BSZ ?c))"
      by (auto simp: transpose_def Let_def run_outcome_def returns_def Usage_def outcome_of_def
            locals_simps(3) split: if_splits option.splits flow.splits)
    from z ok have E: "?E =
        (Open src (Some src) # (if o_verbose os then map PrintOption (copt ?c) else [])
         @ [Close (Some src)])
        @ (if o_verbose os then [PrintBufferSize (BSZ ?c)] else []) @ es"
      by (simp add: transpose_def Let_def run_events_def locals_simps(3))
    then have sub: "set es \<subseteq> set ?E"
      by auto
    have opened: "Close h \<in> set ?E \<and>
          (0 < ds_xsize d \<and> 0 < ds_ysize d \<longrightarrow>
             (\<exists>a. RasterIO a \<in> set ?E \<and> io_rw a = GF_Read \<and> io_h a = h))"
      if "name \<noteq> src \<and> Open name h \<in> set ?E" for name h
    proof -
      from that E have "Open name h \<in> set es"
        by (auto split: if_splits)
      from zloop_opened [OF z this] sub show ?thesis
        by (auto simp: locals_simps)
    qed
    have created: "Close h \<in> set ?E \<and>
          (0 < ds_xsize d \<longrightarrow>
             (\<exists>a. RasterIO a \<in> set ?E \<and> io_rw a = GF_Write \<and> io_h a = h))"
      if "Create name nx ny nb t opts h \<in> set ?E" for name nx ny nb t opts h
    proof -
      from that E have "Create name nx ny nb t opts h \<in> set es"
        by (auto split: if_splits)
      from zloop_created [OF z this] sub show ?thesis
        by (auto simp: locals_simps)
    qed
    from opened created show
      "(\<forall>name h. name \<noteq> src \<and> Open name h \<in> set ?E \<longrightarrow>
          Close h \<in> set ?E \<and>
          (0 < ds_xsize d \<and> 0 < ds_ysize d \<longrightarrow>
             (\<exists>a. RasterIO a \<in> set ?E \<and> io_rw a = GF_Read \<and> io_h a = h))) \<and>
       (\<forall>name nx ny nb t opts h. Create name nx ny nb t opts h \<in> set ?E \<longrightarrow>
          Close h \<in> set ?E \<and>
          (0 < ds_xsize d \<longrightarrow>
             (\<exists>a. RasterIO a \<in> set ?E \<and> io_rw a = GF_Write \<and> io_h a = h)))"
      by blast
  qed
qed

theorem handles_are_not_checked_witness:
  "run_outcome (transpose 3 broken_store no_options ''in.mrf'' ''out.mrf''
     (volume 1 2 1 None None (column 9)) (headers broken_store ''in.mrf'') 1) = Some (Exit 0) \<and>
   Open ''in.mrf:MRF:Z0'' None
     \<in> set (run_events (transpose 3 broken_store no_options ''in.mrf'' ''out.mrf''
         (volume 1 2 1 None None (column 9)) (headers broken_store ''in.mrf'') 1)) \<and>
   Create ''out.mrf:MRF:Z0'' 1 1 1 GDT_Byte
       [''COMPRESS=PNG'', ''BLOCKXSIZE=1'', ''BLOCKYSIZE=1'', ''ZSIZE=2''] None
     \<in> set (run_events (transpose 3 broken_store no_options ''in.mrf'' ''out.mrf''
         (volume 1 2 1 None None (column 9)) (headers broken_store ''in.mrf'') 1)) \<and>
   Close None
     \<in> set (run_events (transpose 3 broken_store no_options ''in.mrf'' ''out.mrf''
         (volume 1 2 1 None None (column 9)) (headers broken_store ''in.mrf'') 1)) \<and>
   (\<exists>a. RasterIO a
       \<in> set (run_events (transpose 3 broken_store no_options ''in.mrf'' ''out.mrf''
           (volume 1 2 1 None None (column 9)) (headers broken_store ''in.mrf'') 1)) \<and>
       io_rw a = GF_Read \<and> io_h a = None) \<and>
   (\<exists>a. RasterIO a
       \<in> set (run_events (transpose 3 broken_store no_options ''in.mrf'' ''out.mrf''
           (volume 1 2 1 None None (column 9)) (headers broken_store ''in.mrf'') 1)) \<and>
       io_rw a = GF_Write \<and> io_h a = None)"
proof -
  let ?d = "volume 1 2 1 None None (column 9)"
  let ?h = "headers broken_store ''in.mrf''"
  let ?T = "transpose 3 broken_store no_options ''in.mrf'' ''out.mrf'' ?d ?h 1"
  have out: "run_outcome ?T = Some (Exit 0)"
    by (simp add: runs strings calls examples cong: lazily)
  have ev: "run_events ?T =
      [Open ''in.mrf'' (Some ''in.mrf''), Close (Some ''in.mrf''),
       Open ''in.mrf:MRF:Z0'' None,
       Create ''out.mrf:MRF:Z0'' 1 1 1 GDT_Byte
        [''COMPRESS=PNG'', ''BLOCKXSIZE=1'', ''BLOCKYSIZE=1'', ''ZSIZE=2''] None,
       PrintProcessing 0 0 0,
       RasterIO
        \<lparr>io_h = None, io_rw = GF_Read, io_xoff = 0, io_yoff = 0, io_xsize = 1,
           io_ysize = 1, io_data = 0, io_bufxsize = 1, io_bufysize = 1,
           io_type = GDT_Byte, io_bands = 1, io_pixelspace = 1, io_linespace = 1,
           io_bandspace = 1\<rparr>,
       RasterIO
        \<lparr>io_h = None, io_rw = GF_Write, io_xoff = 0, io_yoff = 0, io_xsize = 1,
           io_ysize = 1, io_data = 0, io_bufxsize = 1, io_bufysize = 1,
           io_type = GDT_Byte, io_bands = 1, io_pixelspace = 1, io_linespace = 1,
           io_bandspace = 1\<rparr>,
       Close None,
       Create ''out.mrf:MRF:Z1'' 1 1 1 GDT_Byte
        [''COMPRESS=PNG'', ''BLOCKXSIZE=1'', ''BLOCKYSIZE=1'', ''ZSIZE=2''] None,
       PrintProcessing 0 1 0,
       RasterIO
        \<lparr>io_h = None, io_rw = GF_Read, io_xoff = 0, io_yoff = 1, io_xsize = 0,
           io_ysize = 1, io_data = 0, io_bufxsize = 0, io_bufysize = 1,
           io_type = GDT_Byte, io_bands = 1, io_pixelspace = 1, io_linespace = 1,
           io_bandspace = 1\<rparr>,
       RasterIO
        \<lparr>io_h = None, io_rw = GF_Write, io_xoff = 0, io_yoff = 0, io_xsize = 0,
           io_ysize = 1, io_data = 0, io_bufxsize = 0, io_bufysize = 1,
           io_type = GDT_Byte, io_bands = 1, io_pixelspace = 1, io_linespace = 1,
           io_bandspace = 1\<rparr>,
       Close None, Close None]"
    by (simp add: runs strings calls examples cong: lazily)
  have d: "0 < ds_xsize ?d \<and> 0 < ds_ysize ?d" "0 < ds_xsize ?d"
    by (simp_all add: examples)
  have op: "''in.mrf:MRF:Z0'' \<noteq> ''in.mrf'' \<and>
            Open ''in.mrf:MRF:Z0'' None \<in> set (run_events ?T)"
    unfolding ev by simp
  have cr: "Create ''out.mrf:MRF:Z0'' 1 1 1 GDT_Byte
         [''COMPRESS=PNG'', ''BLOCKXSIZE=1'', ''BLOCKYSIZE=1'', ''ZSIZE=2''] None
         \<in> set (run_events ?T)"
    unfolding ev by simp
  note H = handles_are_not_checked [where fuel = 3 and w = broken_store
      and f = "files broken_store" and cr = "creatable broken_store" and os = no_options
      and src = "''in.mrf''" and tgt = "''out.mrf''" and d = ?d and hdr = ?h and nz = 1,
      THEN conjunct2, THEN mp, OF out]
  note opened = H [THEN conjunct1, THEN spec, THEN spec, THEN mp, OF op]
  note created = H [THEN conjunct2, THEN spec, THEN spec, THEN spec, THEN spec, THEN spec,
      THEN spec, THEN spec, THEN mp, OF cr]
  from opened [THEN conjunct2, THEN mp, OF d(1)] created [THEN conjunct2, THEN mp, OF d(2)]
    opened [THEN conjunct1] out op [THEN conjunct2] cr
  show ?thesis
    by (intro conjI)
qed

end
